theory Spec2Isabelle
  imports
    Main
    "HOL-Library.Word"
    "HOL-Library.Char_ord"
    "HOL-Library.List_Lexorder"
    "HOL-Library.AList"
    "HOL-Library.Multiset"
    "HOL-Library.Code_Target_Nat"
begin

unbundle bit_operations_syntax

section \<open>Network entries: Go's \<open>net.IPNet\<close>\<close>

text \<open>
  The repository represents a network entry as a \<open>net.IPNet\<close> of Go's standard
  library: an address (\<open>IP\<close>, a byte slice of length 4 or 16) and a mask (\<open>Mask\<close>, a byte
  slice of length 4 or 16). Its canonical string is \<open>IPNet.String()\<close>. The standard
  library is not part of the repository; the functions below follow the library's
  source (packages \<open>net\<close> and \<open>net/netip\<close>), function by function and under their names.
  A Go string is a byte sequence, which is what \<^typ>\<open>string\<close> is; the order on strings
  (\<open>List_Lexorder\<close> over \<open>Char_ord\<close>) is the bytewise lexicographic order of Go's \<open><\<close>.
\<close>

type_synonym byte = "8 word"

record IPNet =
  IP :: "byte list"
  Mask :: "byte list"

text \<open>\<open>itoa.Uitoa\<close>: the decimal digits of a non-negative integer.\<close>

fun uitoa :: "nat \<Rightarrow> string" where
  "uitoa n = (if n < 10 then [char_of (48 + n)]
              else uitoa (n div 10) @ [char_of (48 + n mod 10)])"

declare uitoa.simps [simp del]

text \<open>\<open>hexDigit = "0123456789abcdef"\<close>, indexed by a value below 16.\<close>

definition hexDigit :: "nat \<Rightarrow> char" where
  "hexDigit d = (if d < 10 then char_of (48 + d) else char_of (87 + d))"

definition hexString :: "byte list \<Rightarrow> string" where
  "hexString b = concat (map (\<lambda>tn. [hexDigit (unat (drop_bit 4 tn)), hexDigit (unat (tn AND 0xf))]) b)"

definition isZeros :: "byte list \<Rightarrow> bool" where
  "isZeros p = list_all (\<lambda>b. b = 0) p"

text \<open>\<open>IP.To4\<close>; \<open>None\<close> is Go's \<open>nil\<close>.\<close>

definition IP_To4 :: "byte list \<Rightarrow> byte list option" where
  "IP_To4 ip =
     (if length ip = 4 then Some ip
      else if length ip = 16 \<and> isZeros (take 10 ip) \<and> ip ! 10 = 0xff \<and> ip ! 11 = 0xff
        then Some (drop 12 ip)
      else None)"

text \<open>\<open>CIDRMask ones bits\<close>: \<open>ones\<close> one-bits followed by zeros, \<open>bits\<close> bits in all.\<close>

fun CIDRMask_loop :: "nat \<Rightarrow> nat \<Rightarrow> byte list" where
  "CIDRMask_loop 0 n = []"
| "CIDRMask_loop (Suc l) n =
     (if n \<ge> 8 then 0xff # CIDRMask_loop l (n - 8)
      else NOT (drop_bit n (0xff :: byte)) # CIDRMask_loop l 0)"

definition CIDRMask :: "nat \<Rightarrow> nat \<Rightarrow> byte list option" where
  "CIDRMask ones bits =
     (if bits \<noteq> 32 \<and> bits \<noteq> 128 then None
      else if ones > bits then None
      else Some (CIDRMask_loop (bits div 8) ones))"

text \<open>
  \<open>simpleMaskLength\<close>: the number of leading one-bits when the mask is ones followed by
  zeros; \<open>None\<close> is Go's \<open>-1\<close>.
\<close>

fun count_ones :: "nat \<Rightarrow> byte \<Rightarrow> nat \<times> byte" where
  "count_ones 0 v = (0, v)"
| "count_ones (Suc k) v =
     (if v AND 0x80 \<noteq> 0 then (let (n, r) = count_ones k (push_bit 1 v) in (Suc n, r))
      else (0, v))"

fun simpleMaskLength :: "byte list \<Rightarrow> nat option" where
  "simpleMaskLength [] = Some 0"
| "simpleMaskLength (v # rest) =
     (if v = 0xff then map_option (\<lambda>n. n + 8) (simpleMaskLength rest)
      else (let (n, r) = count_ones 8 v in
            if r \<noteq> 0 then None
            else if list_ex (\<lambda>b. b \<noteq> 0) rest then None
            else Some n))"

text \<open>\<open>netip.Addr.string4\<close>: dotted decimal of four bytes.\<close>

definition string4 :: "byte list \<Rightarrow> string" where
  "string4 p = uitoa (unat (p ! 0)) @ ''.'' @ uitoa (unat (p ! 1)) @ ''.'' @
               uitoa (unat (p ! 2)) @ ''.'' @ uitoa (unat (p ! 3))"

text \<open>\<open>netip.Addr.v6u16\<close> for all eight groups: the 16-bit groups of a 16-byte address.\<close>

fun v6u16 :: "byte list \<Rightarrow> nat list" where
  "v6u16 (hi # lo # rest) = (unat hi * 256 + unat lo) # v6u16 rest"
| "v6u16 _ = []"

text \<open>\<open>appendHex\<close>: lower-case hexadecimal without leading zeros.\<close>

definition appendHex :: "nat \<Rightarrow> string" where
  "appendHex x =
     (if x \<ge> 0x1000 then [hexDigit (x div 0x1000)] else []) @
     (if x \<ge> 0x100 then [hexDigit (x div 0x100 mod 16)] else []) @
     (if x \<ge> 0x10 then [hexDigit (x div 0x10 mod 16)] else []) @
     [hexDigit (x mod 16)]"

text \<open>
  \<open>netip.Addr.appendTo6\<close>. The first loop finds the longest run of at least two zero groups
  (the first one among equals); the state is the run's start and its length (Go keeps
  \<open>zeroStart\<close> and \<open>zeroEnd\<close>, both 255 when there is none: length 0).
\<close>

definition zero_run :: "nat list \<Rightarrow> nat \<times> nat" where
  "zero_run gs =
     fold (\<lambda>i (zeroStart, l0).
             let l = length (takeWhile (\<lambda>g. g = 0) (drop i gs))
             in if l \<ge> 2 \<and> l > l0 then (i, l) else (zeroStart, l0))
          [0..<8] (255, 0)"

function appendTo6_loop :: "nat list \<Rightarrow> nat \<Rightarrow> nat \<Rightarrow> nat \<Rightarrow> string" where
  "appendTo6_loop gs zeroStart l i =
     (if i \<ge> 8 then []
      else if i = zeroStart then
        (if zeroStart + l \<ge> 8 then ''::''
         else ''::'' @ appendHex (gs ! (zeroStart + l)) @ appendTo6_loop gs zeroStart l (zeroStart + l + 1))
      else (if i > 0 then '':'' else []) @ appendHex (gs ! i) @ appendTo6_loop gs zeroStart l (i + 1))"
  by pat_completeness auto
termination
  by (relation "measure (\<lambda>(gs, zeroStart, l, i). 8 - i)") auto

declare appendTo6_loop.simps [simp del]

definition string6 :: "byte list \<Rightarrow> string" where
  "string6 ip = (let gs = v6u16 ip; (zeroStart, l) = zero_run gs in appendTo6_loop gs zeroStart l 0)"

text \<open>\<open>IP.String\<close>.\<close>

definition IP_String :: "byte list \<Rightarrow> string" where
  "IP_String ip =
     (if length ip = 0 then ''<nil>''
      else if length ip \<noteq> 4 \<and> length ip \<noteq> 16 then ''?'' @ hexString ip
      else (case IP_To4 ip of
              Some p4 \<Rightarrow> string4 p4
            | None \<Rightarrow> string6 ip))"

text \<open>\<open>IPMask.String\<close>.\<close>

definition IPMask_String :: "byte list \<Rightarrow> string" where
  "IPMask_String m = (if length m = 0 then ''<nil>'' else hexString m)"

text \<open>\<open>networkNumberAndMask\<close>; \<open>None\<close> is Go's pair of \<open>nil\<close>s.\<close>

definition networkNumberAndMask :: "IPNet \<Rightarrow> (byte list \<times> byte list) option" where
  "networkNumberAndMask n =
     (let ip4 = IP_To4 (IP n);
          ip = (case ip4 of Some p \<Rightarrow> p | None \<Rightarrow> IP n)
      in if ip4 = None \<and> length ip \<noteq> 16 then None
         else if length (Mask n) = 4 then
           (if length ip \<noteq> 4 then None else Some (ip, Mask n))
         else if length (Mask n) = 16 then
           (if length ip = 4 then Some (ip, drop 12 (Mask n)) else Some (ip, Mask n))
         else None)"

text \<open>\<open>IPNet.String\<close>: the canonical string of an entry.\<close>

definition IPNet_String :: "IPNet \<Rightarrow> string" where
  "IPNet_String n =
     (case networkNumberAndMask n of
        None \<Rightarrow> ''<nil>''
      | Some (nn, m) \<Rightarrow>
          (case simpleMaskLength m of
             None \<Rightarrow> IP_String nn @ ''/'' @ IPMask_String m
           | Some l \<Rightarrow> IP_String nn @ ''/'' @ uitoa l))"

section \<open>Parsing addresses: \<open>net.ParseIP\<close> and \<open>net.ParseCIDR\<close>\<close>

text \<open>
  \<open>netip.Addr\<close>: a 4-byte address, or a 16-byte address with a zone. \<open>netip.ParseAddr\<close>
  dispatches on the first of \<open>.\<close>, \<open>:\<close> and \<open>%\<close> in the string.
\<close>

datatype Addr = Addr4 "byte list" | Addr6 "byte list" string

definition digit_val :: "char \<Rightarrow> nat option" where
  "digit_val c = (if CHR ''0'' \<le> c \<and> c \<le> CHR ''9'' then Some (of_char c - 48) else None)"

definition hex_val :: "char \<Rightarrow> nat option" where
  "hex_val c =
     (if CHR ''0'' \<le> c \<and> c \<le> CHR ''9'' then Some (of_char c - 48)
      else if CHR ''a'' \<le> c \<and> c \<le> CHR ''f'' then Some (of_char c - 87)
      else if CHR ''A'' \<le> c \<and> c \<le> CHR ''F'' then Some (of_char c - 55)
      else None)"

text \<open>
  \<open>parseIPv4Fields\<close>: the loop over the characters. \<open>prev\<close> is the character before the
  current one (\<open>None\<close> at index 0), \<open>val\<close> and \<open>digLen\<close> are the loop's variables, and
  \<open>octets\<close> holds the \<open>pos\<close> fields stored so far. \<open>None\<close> is an error return.
\<close>

fun parseIPv4Fields_loop :: "string \<Rightarrow> char option \<Rightarrow> nat \<Rightarrow> nat \<Rightarrow> byte list \<Rightarrow> byte list option" where
  "parseIPv4Fields_loop [] prev val digLen octets =
     (if length octets < 3 then None else Some (octets @ [of_nat val]))"
| "parseIPv4Fields_loop (c # cs) prev val digLen octets =
     (case digit_val c of
        Some d \<Rightarrow>
          (if digLen = 1 \<and> val = 0 then None
           else if val * 10 + d > 255 then None
           else parseIPv4Fields_loop cs (Some c) (val * 10 + d) (digLen + 1) octets)
      | None \<Rightarrow>
          (if c = CHR ''.'' then
             (if prev = None \<or> cs = [] \<or> prev = Some (CHR ''.'') then None
              else if length octets = 3 then None
              else parseIPv4Fields_loop cs (Some c) 0 0 (octets @ [of_nat val]))
           else None))"

definition parseIPv4Fields :: "string \<Rightarrow> byte list option" where
  "parseIPv4Fields s = parseIPv4Fields_loop s None 0 0 []"

definition parseIPv4 :: "string \<Rightarrow> Addr option" where
  "parseIPv4 s = map_option Addr4 (parseIPv4Fields s)"

text \<open>
  The inner loop of \<open>parseIPv6\<close>: one group of hexadecimal digits. It returns the number
  of digits read and their value, or \<open>None\<close> when there are more than four.
\<close>

fun hex_group :: "string \<Rightarrow> nat \<Rightarrow> nat \<Rightarrow> (nat \<times> nat) option" where
  "hex_group [] off acc = Some (off, acc)"
| "hex_group (c # cs) off acc =
     (case hex_val c of
        None \<Rightarrow> Some (off, acc)
      | Some v \<Rightarrow>
          (if off > 3 then None
           else if acc * 16 + v > 0xffff then None
           else hex_group cs (off + 1) (acc * 16 + v)))"

text \<open>
  The outer loop of \<open>parseIPv6\<close>. \<open>ip\<close> holds the \<open>i\<close> bytes written so far and \<open>ellipsis\<close>
  the position of \<open>::\<close> (\<open>None\<close> is Go's \<open>-1\<close>). The result is what the loop leaves: the
  rest of the string, the bytes, the ellipsis; \<open>None\<close> is an error return.
\<close>

function parseIPv6_loop :: "string \<Rightarrow> byte list \<Rightarrow> nat option \<Rightarrow> (string \<times> byte list \<times> nat option) option" where
  "parseIPv6_loop s ip ellipsis =
     (if length ip \<ge> 16 then Some (s, ip, ellipsis)
      else (case hex_group s 0 0 of
              None \<Rightarrow> None
            | Some (off, acc) \<Rightarrow>
                (if off = 0 then None
                 else if off < length s \<and> s ! off = CHR ''.'' then
                   (if ellipsis = None \<and> length ip \<noteq> 12 then None
                    else if length ip + 4 > 16 then None
                    else (case parseIPv4Fields s of
                            None \<Rightarrow> None
                          | Some f \<Rightarrow> Some ([], ip @ f, ellipsis)))
                 else
                   (let ip' = ip @ [of_nat (acc div 256), of_nat acc];
                        s1 = drop off s
                    in if s1 = [] then Some (s1, ip', ellipsis)
                       else if hd s1 \<noteq> CHR '':'' then None
                       else if length s1 = 1 then None
                       else (let s2 = tl s1
                             in if hd s2 = CHR '':'' then
                                  (if ellipsis \<noteq> None then None
                                   else if tl s2 = [] then Some ([], ip', Some (length ip'))
                                   else parseIPv6_loop (tl s2) ip' (Some (length ip')))
                                else parseIPv6_loop s2 ip' ellipsis)))))"
  by pat_completeness auto
termination
  by (relation "measure (\<lambda>(s, ip, ellipsis). 16 - length ip)") auto

declare parseIPv6_loop.simps [simp del]

definition parseIPv6 :: "string \<Rightarrow> Addr option" where
  "parseIPv6 inp =
     (let s0 = takeWhile (\<lambda>c. c \<noteq> CHR ''%'') inp;
          has_zone = (length s0 < length inp);
          zone = drop (length s0 + 1) inp
      in if has_zone \<and> zone = [] then None
         else (let lead = (length s0 \<ge> 2 \<and> s0 ! 0 = CHR '':'' \<and> s0 ! 1 = CHR '':'');
                   s = (if lead then drop 2 s0 else s0);
                   ellipsis0 = (if lead then Some 0 else None)
               in if lead \<and> s = [] then Some (Addr6 (replicate 16 0) zone)
                  else (case parseIPv6_loop s [] ellipsis0 of
                          None \<Rightarrow> None
                        | Some (rest, ip, ellipsis) \<Rightarrow>
                            (if rest \<noteq> [] then None
                             else if length ip < 16 then
                               (case ellipsis of
                                  None \<Rightarrow> None
                                | Some e \<Rightarrow>
                                    Some (Addr6 (take e ip @ replicate (16 - length ip) 0 @ drop e ip) zone))
                             else if ellipsis \<noteq> None then None
                             else Some (Addr6 ip zone)))))"

fun ParseAddr_scan :: "string \<Rightarrow> string \<Rightarrow> Addr option" where
  "ParseAddr_scan s [] = None"
| "ParseAddr_scan s (c # cs) =
     (if c = CHR ''.'' then parseIPv4 s
      else if c = CHR '':'' then parseIPv6 s
      else if c = CHR ''%'' then None
      else ParseAddr_scan s cs)"

definition ParseAddr :: "string \<Rightarrow> Addr option" where
  "ParseAddr s = ParseAddr_scan s s"

definition v4InV6Prefix :: "byte list" where
  "v4InV6Prefix = [0, 0, 0, 0, 0, 0, 0, 0, 0, 0, 0xff, 0xff]"

definition Zone :: "Addr \<Rightarrow> string" where
  "Zone a = (case a of Addr4 b \<Rightarrow> [] | Addr6 b z \<Rightarrow> z)"

definition As16 :: "Addr \<Rightarrow> byte list" where
  "As16 a = (case a of Addr4 b \<Rightarrow> v4InV6Prefix @ b | Addr6 b z \<Rightarrow> b)"

definition BitLen :: "Addr \<Rightarrow> nat" where
  "BitLen a = (case a of Addr4 b \<Rightarrow> 32 | Addr6 b z \<Rightarrow> 128)"

text \<open>\<open>net.ParseIP\<close>: the 16-byte form of the address; \<open>None\<close> is Go's \<open>nil\<close>.\<close>

definition ParseIP :: "string \<Rightarrow> byte list option" where
  "ParseIP s =
     (case ParseAddr s of
        None \<Rightarrow> None
      | Some a \<Rightarrow> (if Zone a \<noteq> [] then None else Some (As16 a)))"

text \<open>\<open>IP.Mask\<close>; \<open>None\<close> is Go's \<open>nil\<close>.\<close>

definition allFF :: "byte list \<Rightarrow> bool" where
  "allFF b = list_all (\<lambda>c. c = 0xff) b"

definition IP_Mask :: "byte list \<Rightarrow> byte list \<Rightarrow> byte list option" where
  "IP_Mask ip0 mask0 =
     (let mask = (if length mask0 = 16 \<and> length ip0 = 4 \<and> allFF (take 12 mask0)
                  then drop 12 mask0 else mask0);
          ip = (if length mask = 4 \<and> length ip0 = 16 \<and> take 12 ip0 = v4InV6Prefix
                then drop 12 ip0 else ip0)
      in if length ip \<noteq> length mask then None
         else Some (map2 (AND) ip mask))"

text \<open>\<open>dtoi\<close>: a decimal number at the start of a string, with the number of characters read.\<close>

fun dtoi_loop :: "string \<Rightarrow> nat \<Rightarrow> nat \<Rightarrow> (nat \<times> nat) option" where
  "dtoi_loop [] n i = Some (n, i)"
| "dtoi_loop (c # cs) n i =
     (case digit_val c of
        None \<Rightarrow> Some (n, i)
      | Some d \<Rightarrow> (if n * 10 + d \<ge> 0xFFFFFF then None else dtoi_loop cs (n * 10 + d) (i + 1)))"

definition dtoi :: "string \<Rightarrow> (nat \<times> nat) option" where
  "dtoi s = (case dtoi_loop s 0 0 of
               None \<Rightarrow> None
             | Some (n, i) \<Rightarrow> (if i = 0 then None else Some (n, i)))"

text \<open>\<open>net.ParseCIDR\<close>, its second result (the network); \<open>None\<close> is an error return.\<close>

definition ParseCIDR :: "string \<Rightarrow> IPNet option" where
  "ParseCIDR s =
     (let addr = takeWhile (\<lambda>c. c \<noteq> CHR ''/'') s
      in if length addr \<ge> length s then None
         else (let mask = drop (length addr + 1) s
               in case ParseAddr addr of
                    None \<Rightarrow> None
                  | Some ipAddr \<Rightarrow>
                      (if Zone ipAddr \<noteq> [] then None
                       else (case dtoi mask of
                               None \<Rightarrow> None
                             | Some (n, i) \<Rightarrow>
                                 (if i \<noteq> length mask \<or> n > BitLen ipAddr then None
                                  else (let m = (case CIDRMask n (BitLen ipAddr) of Some m \<Rightarrow> m | None \<Rightarrow> [])
                                        in Some \<lparr>IP = (case IP_Mask (As16 ipAddr) m of Some p \<Rightarrow> p | None \<Rightarrow> []),
                                                 Mask = m\<rparr>))))))"

text \<open>
  \<open>strings.TrimSpace\<close>: leading and trailing white space is removed, white space being the
  code points of \<open>unicode.IsSpace\<close>, here in their UTF-8 encodings.
\<close>

definition space_runes :: "string list" where
  "space_runes = map (map char_of)
     [[0x09 :: nat], [0x0A], [0x0B], [0x0C], [0x0D], [0x20], [0xC2, 0x85], [0xC2, 0xA0],
      [0xE1, 0x9A, 0x80],
      [0xE2, 0x80, 0x80], [0xE2, 0x80, 0x81], [0xE2, 0x80, 0x82], [0xE2, 0x80, 0x83],
      [0xE2, 0x80, 0x84], [0xE2, 0x80, 0x85], [0xE2, 0x80, 0x86], [0xE2, 0x80, 0x87],
      [0xE2, 0x80, 0x88], [0xE2, 0x80, 0x89], [0xE2, 0x80, 0x8A],
      [0xE2, 0x80, 0xA8], [0xE2, 0x80, 0xA9], [0xE2, 0x80, 0xAF], [0xE2, 0x81, 0x9F],
      [0xE3, 0x80, 0x80]]"

definition HasPrefix :: "string \<Rightarrow> string \<Rightarrow> bool" where
  "HasPrefix s pre = (take (length pre) s = pre)"

text \<open>\<open>trim rs n s\<close> removes leading occurrences of the strings \<open>rs\<close>, at most \<open>n\<close> of them.\<close>

primrec trim :: "string list \<Rightarrow> nat \<Rightarrow> string \<Rightarrow> string" where
  "trim rs 0 s = s"
| "trim rs (Suc n) s =
     (case find (HasPrefix s) rs of
        None \<Rightarrow> s
      | Some r \<Rightarrow> trim rs n (drop (length r) s))"

definition TrimSpace :: "string \<Rightarrow> string" where
  "TrimSpace s =
     (let l = trim space_runes (length s) s
      in rev (trim (map rev space_runes) (length l) (rev l)))"

definition Contains :: "string \<Rightarrow> char \<Rightarrow> bool" where
  "Contains s c = (c \<in> set s)"

section \<open>The parsers\<close>

datatype error =
    InvalidCIDR string
  | InvalidIPAddress string
  | UnknownParser string
  | FailedToCreateRequest
  | FailedToFetchFeed
  | UnexpectedStatusCode nat
  | ErrorReadingFeed
  | NoValidIPsFound
  | LoginFailed
  | RequestFailed
  | FailedToDecodeResponse
  | GroupNotFound string
  | NoGroupReturned
  | FailedToFetchFeeds error
  | FailedToCreateFirewallGroup error
  | FailedToUpdateFirewallGroup error

text \<open>\<open>parseIPOrCIDR\<close> (utils.go).\<close>

definition parseIPOrCIDR :: "string \<Rightarrow> error + IPNet" where
  "parseIPOrCIDR s0 =
     (let s = TrimSpace s0
      in if Contains s (CHR ''/'') then
           (case ParseCIDR s of
              None \<Rightarrow> Inl (InvalidCIDR s)
            | Some ipnet \<Rightarrow> Inr ipnet)
         else (case ParseIP s of
                 None \<Rightarrow> Inl (InvalidIPAddress s)
               | Some ip \<Rightarrow>
                   (let mask = (if IP_To4 ip \<noteq> None then CIDRMask 32 32 else CIDRMask 128 128)
                    in Inr \<lparr>IP = ip, Mask = (case mask of Some m \<Rightarrow> m | None \<Rightarrow> [])\<rparr>)))"

text \<open>
  The body of a response, as \<open>bufio.Scanner\<close> reads it: the bytes the stream delivers, and
  whether the stream then ends with a read error instead of the end of the input.
\<close>

record Reader =
  content :: string
  read_error :: bool

text \<open>
  \<open>bufio.ScanLines\<close>: the lines of the input, without the newline and without one trailing
  carriage return; a last line without newline counts when it is not empty.
\<close>

definition dropCR :: "string \<Rightarrow> string" where
  "dropCR l = (if l \<noteq> [] \<and> last l = CHR 0x0D then butlast l else l)"

fun raw_lines :: "string \<Rightarrow> string \<Rightarrow> string list" where
  "raw_lines cur [] = (if cur = [] then [] else [cur])"
| "raw_lines cur (c # cs) =
     (if c = CHR 0x0A then cur # raw_lines [] cs else raw_lines (cur @ [c]) cs)"

text \<open>
  \<open>Scanner.Scan\<close> until it returns false, then \<open>Scanner.Err\<close>: the tokens, or \<open>None\<close> when
  the scanner ends with an error, which is a read error of the stream or a line of
  \<open>MaxScanTokenSize\<close> bytes or more (\<open>ErrTooLong\<close>).
\<close>

definition MaxScanTokenSize :: nat where
  "MaxScanTokenSize = 64 * 1024"

definition Scan :: "Reader \<Rightarrow> string list option" where
  "Scan body =
     (let ls = raw_lines [] (content body)
      in if read_error body \<or> list_ex (\<lambda>l. length l \<ge> MaxScanTokenSize) ls then None
         else Some (map dropCR ls))"

text \<open>
  The body of the loop of \<open>PlainParser.parseBody\<close> (the plain parser, in netset.go): what one line
  adds to \<open>networks\<close>; \<open>None\<close> is \<open>continue\<close>.
\<close>

definition PlainParser_line :: "string \<Rightarrow> IPNet option" where
  "PlainParser_line text =
     (let line = TrimSpace text
      in if line = [] then None
         else if HasPrefix line ''#'' \<or> HasPrefix line '';'' \<or> HasPrefix line ''//'' then None
         else (case parseIPOrCIDR line of
                 Inl err \<Rightarrow> None
               | Inr ipnet \<Rightarrow> Some ipnet))"

definition PlainParser_parseBody :: "Reader \<Rightarrow> error + IPNet list" where
  "PlainParser_parseBody body =
     (case Scan body of
        None \<Rightarrow> Inl ErrorReadingFeed
      | Some ls \<Rightarrow>
          (let networks = List.map_filter PlainParser_line ls
           in if length networks = 0 then Inl NoValidIPsFound else Inr networks))"

text \<open>The same for \<open>NetsetParser.parseBody\<close>, whose only comment marker is \<open>#\<close>.\<close>

definition NetsetParser_line :: "string \<Rightarrow> IPNet option" where
  "NetsetParser_line text =
     (let line = TrimSpace text
      in if line = [] then None
         else if HasPrefix line ''#'' then None
         else (case parseIPOrCIDR line of
                 Inl err \<Rightarrow> None
               | Inr ipnet \<Rightarrow> Some ipnet))"

definition NetsetParser_parseBody :: "Reader \<Rightarrow> error + IPNet list" where
  "NetsetParser_parseBody body =
     (case Scan body of
        None \<Rightarrow> Inl ErrorReadingFeed
      | Some ls \<Rightarrow>
          (let networks = List.map_filter NetsetParser_line ls
           in if length networks = 0 then Inl NoValidIPsFound else Inr networks))"

text \<open>\<open>config.FeedConfig\<close> and \<open>FeedsList.GetEnabled\<close> (config.go); the maps \<open>Auth\<close> and
  \<open>Params\<close>, which no function of the pipeline reads, are left out.\<close>

record FeedConfig =
  Name :: string
  URL :: string
  Parser :: string
  Enabled :: bool
  Timeout :: string

definition GetEnabled :: "FeedConfig list \<Rightarrow> FeedConfig list" where
  "GetEnabled f = filter Enabled f"

text \<open>
  What the world answers to the GET of a feed: the request cannot be built, the exchange
  fails (transport error, timeout, cancellation), or a response with a status code and a
  body. The sources of the feeds are a function from the URL to the answer during one
  cycle.
\<close>

datatype feed_reply = FeedNoRequest | FeedNoResponse | FeedResponse nat Reader

type_synonym web = "string \<Rightarrow> feed_reply"

definition PlainParser_Parse :: "web \<Rightarrow> FeedConfig \<Rightarrow> error + IPNet list" where
  "PlainParser_Parse w feedConfig =
     (case w (URL feedConfig) of
        FeedNoRequest \<Rightarrow> Inl FailedToCreateRequest
      | FeedNoResponse \<Rightarrow> Inl FailedToFetchFeed
      | FeedResponse status body \<Rightarrow>
          (if status \<noteq> 200 then Inl (UnexpectedStatusCode status)
           else PlainParser_parseBody body))"

definition NetsetParser_Parse :: "web \<Rightarrow> FeedConfig \<Rightarrow> error + IPNet list" where
  "NetsetParser_Parse w feedConfig =
     (case w (URL feedConfig) of
        FeedNoRequest \<Rightarrow> Inl FailedToCreateRequest
      | FeedNoResponse \<Rightarrow> Inl FailedToFetchFeed
      | FeedResponse status body \<Rightarrow>
          (if status \<noteq> 200 then Inl (UnexpectedStatusCode status)
           else NetsetParser_parseBody body))"

text \<open>
  The parser registry (parser.go): a map from names to parsers. A parser is what the
  orchestrator uses of the interface, its \<open>Parse\<close> method. \<open>Register\<close> overwrites.
\<close>

type_synonym parser = "web \<Rightarrow> FeedConfig \<Rightarrow> error + IPNet list"

type_synonym registry = "string \<rightharpoonup> parser"

definition Register :: "string \<Rightarrow> parser \<Rightarrow> registry \<Rightarrow> registry" where
  "Register name p reg = reg(name \<mapsto> p)"

definition Get :: "registry \<Rightarrow> string \<Rightarrow> error + parser" where
  "Get reg name = (case reg name of None \<Rightarrow> Inl (UnknownParser name) | Some p \<Rightarrow> Inr p)"

text \<open>The registry after the \<open>init\<close> functions of netset.go.\<close>

definition init_registry :: registry where
  "init_registry = Register ''plain'' PlainParser_Parse (Register ''netset'' NetsetParser_Parse Map.empty)"

section \<open>The normalizer\<close>

text \<open>
  \<open>Normalize\<close> (normalizer.go): the entries go into a map keyed by canonical string, a
  later entry replacing an earlier one with the same key; the map's values are collected
  and sorted by canonical string. The map is the association list \<open>seen\<close>. Go iterates a
  map in an unspecified order and \<open>sort.Slice\<close> is not stable; the keys of the values are
  pairwise distinct, so the sorted result does not depend on either (lemma
  \<open>Normalize_any_order\<close> below).
\<close>

definition seen_of :: "IPNet list \<Rightarrow> (string \<times> IPNet) list" where
  "seen_of networks = fold (\<lambda>network seen. AList.update (IPNet_String network) network seen) networks []"

definition Normalize :: "IPNet list \<Rightarrow> IPNet list" where
  "Normalize networks =
     (if length networks = 0 then networks
      else sort_key IPNet_String (map snd (seen_of networks)))"

definition ToStrings :: "IPNet list \<Rightarrow> string list" where
  "ToStrings networks = map IPNet_String networks"

definition Merge :: "IPNet list list \<Rightarrow> IPNet list" where
  "Merge ls = Normalize (concat ls)"

section \<open>The fingerprint\<close>

text \<open>
  \<open>calculateHash\<close> hashes with \<open>crypto/sha256\<close> and prints with \<open>encoding/hex\<close>, both of
  Go's standard library. \<open>Sum256\<close> below is SHA-256 as FIPS 180-4 defines it; the round constants and the initial
  hash value are written in decimal.
\<close>

type_synonym u32 = "32 word"

definition sha256_K :: "u32 list" where
  "sha256_K =
    [1116352408, 1899447441, 3049323471, 3921009573, 961987163, 1508970993, 2453635748, 2870763221,
     3624381080, 310598401, 607225278, 1426881987, 1925078388, 2162078206, 2614888103, 3248222580,
     3835390401, 4022224774, 264347078, 604807628, 770255983, 1249150122, 1555081692, 1996064986,
     2554220882, 2821834349, 2952996808, 3210313671, 3336571891, 3584528711, 113926993, 338241895,
     666307205, 773529912, 1294757372, 1396182291, 1695183700, 1986661051, 2177026350, 2456956037,
     2730485921, 2820302411, 3259730800, 3345764771, 3516065817, 3600352804, 4094571909, 275423344,
     430227734, 506948616, 659060556, 883997877, 958139571, 1322822218, 1537002063, 1747873779,
     1955562222, 2024104815, 2227730452, 2361852424, 2428436474, 2756734187, 3204031479, 3329325298]"

definition sha256_init :: "u32 list" where
  "sha256_init =
    [1779033703, 3144134277, 1013904242, 2773480762, 1359893119, 2600822924, 528734635, 1541459225]"

text \<open>Big-endian conversions between bytes and words.\<close>

fun be_words :: "byte list \<Rightarrow> u32 list" where
  "be_words (a # b # c # d # rest) =
     (push_bit 24 (ucast a) OR push_bit 16 (ucast b) OR push_bit 8 (ucast c) OR ucast d) # be_words rest"
| "be_words _ = []"

definition be_bytes :: "u32 \<Rightarrow> byte list" where
  "be_bytes w = [ucast (drop_bit 24 w), ucast (drop_bit 16 w), ucast (drop_bit 8 w), ucast w]"

definition be_bytes64 :: "64 word \<Rightarrow> byte list" where
  "be_bytes64 w = map (\<lambda>i. ucast (drop_bit (8 * (7 - i)) w)) [0..<8]"

definition sha256_pad :: "byte list \<Rightarrow> byte list" where
  "sha256_pad msg =
     msg @ [0x80] @ replicate ((119 - length msg mod 64) mod 64) 0 @ be_bytes64 (8 * of_nat (length msg))"

text \<open>
  The message schedule: \<open>win\<close> holds the last sixteen words; each new word is computed from
  the words 16, 15, 7 and 2 places back.
\<close>

primrec schedule :: "nat \<Rightarrow> u32 list \<Rightarrow> u32 list" where
  "schedule 0 win = []"
| "schedule (Suc k) win =
     (let v1 = win ! 14; v0 = win ! 1;
          s1 = word_rotr 17 v1 XOR word_rotr 19 v1 XOR drop_bit 10 v1;
          s0 = word_rotr 7 v0 XOR word_rotr 18 v0 XOR drop_bit 3 v0;
          x = s1 + win ! 9 + s0 + win ! 0
      in x # schedule k (tl win @ [x]))"

fun sha256_round :: "u32 \<times> u32 \<Rightarrow> u32 list \<Rightarrow> u32 list" where
  "sha256_round (k, w) [a, b, c, d, e, f, g, h] =
     (let t1 = h + (word_rotr 6 e XOR word_rotr 11 e XOR word_rotr 25 e) +
               ((e AND f) XOR (NOT e AND g)) + k + w;
          t2 = (word_rotr 2 a XOR word_rotr 13 a XOR word_rotr 22 a) +
               ((a AND b) XOR (a AND c) XOR (b AND c))
      in [t1 + t2, a, b, c, d + t1, e, f, g])"
| "sha256_round _ s = s"

definition sha256_block :: "u32 list \<Rightarrow> byte list \<Rightarrow> u32 list" where
  "sha256_block h blk =
     map2 (+) h (fold sha256_round (zip sha256_K (be_words blk @ schedule 48 (be_words blk))) h)"

function sha256_blocks :: "u32 list \<Rightarrow> byte list \<Rightarrow> u32 list" where
  "sha256_blocks h p = (if length p < 64 then h else sha256_blocks (sha256_block h (take 64 p)) (drop 64 p))"
  by pat_completeness auto
termination
  by (relation "measure (\<lambda>(h, p). length p)") auto

declare sha256_blocks.simps [simp del]

definition Sum256 :: "byte list \<Rightarrow> byte list" where
  "Sum256 msg = concat (map be_bytes (sha256_blocks sha256_init (sha256_pad msg)))"

definition EncodeToString :: "byte list \<Rightarrow> string" where
  "EncodeToString b = hexString b"

text \<open>
  \<open>calculateHash\<close> (the orchestrator's fingerprint): the canonical strings, sorted, each
  followed by a newline, concatenated, hashed, and printed in hexadecimal.
\<close>

definition calculateHash :: "IPNet list \<Rightarrow> string" where
  "calculateHash networks =
     (let strs = sort (ToStrings networks);
          combined = concat (map (\<lambda>str. str @ [CHR 0x0A]) strs)
      in EncodeToString (Sum256 (map of_char combined)))"


section \<open>The remote client\<close>

text \<open>
  The UniFi client (\<open>unifi\<close> package) talks HTTP to the controller. What the controller
  answers to one exchange: the request cannot be built, the exchange fails, or a response
  with a status code and, when the body decodes, the groups of its \<open>data\<close> field. The
  controller during a cycle is the list of its answers, one for each exchange in turn;
  when the list is used up the exchange fails.
\<close>

record FirewallGroup =
  ID :: string
  group_Name :: string
  Type :: string
  Members :: "string list"

datatype reply = NoRequest | NoResponse | Response nat "FirewallGroup list option"

definition Do :: "reply list \<Rightarrow> reply \<times> reply list" where
  "Do net = (case net of [] \<Rightarrow> (NoResponse, []) | r # rs \<Rightarrow> (r, rs))"

record Client =
  baseURL :: string
  loggedIn :: bool

definition Login :: "reply list \<Rightarrow> Client \<Rightarrow> error option \<times> Client \<times> reply list" where
  "Login net c =
     (case Do net of
        (NoRequest, net') \<Rightarrow> (Some FailedToCreateRequest, c, net')
      | (NoResponse, net') \<Rightarrow> (Some RequestFailed, c, net')
      | (Response status body, net') \<Rightarrow>
          (if status \<noteq> 200 then (Some LoginFailed, c, net')
           else (None, c\<lparr>loggedIn := True\<rparr>, net')))"

definition ensureLoggedIn :: "reply list \<Rightarrow> Client \<Rightarrow> error option \<times> Client \<times> reply list" where
  "ensureLoggedIn net c = (if loggedIn c then (None, c, net) else Login net c)"

definition GetFirewallGroup ::
  "reply list \<Rightarrow> Client \<Rightarrow> string \<Rightarrow> (error + FirewallGroup) \<times> Client \<times> reply list" where
  "GetFirewallGroup net c name =
     (case ensureLoggedIn net c of
        (Some err, c1, net1) \<Rightarrow> (Inl err, c1, net1)
      | (None, c1, net1) \<Rightarrow>
          (case Do net1 of
             (NoRequest, net2) \<Rightarrow> (Inl FailedToCreateRequest, c1, net2)
           | (NoResponse, net2) \<Rightarrow> (Inl RequestFailed, c1, net2)
           | (Response status body, net2) \<Rightarrow>
               (if status \<noteq> 200 then (Inl (UnexpectedStatusCode status), c1, net2)
                else (case body of
                        None \<Rightarrow> (Inl FailedToDecodeResponse, c1, net2)
                      | Some data \<Rightarrow>
                          (case find (\<lambda>grp. group_Name grp = name) data of
                             Some grp \<Rightarrow> (Inr grp, c1, net2)
                           | None \<Rightarrow> (Inl (GroupNotFound name), c1, net2))))))"

definition CreateFirewallGroup ::
  "reply list \<Rightarrow> Client \<Rightarrow> string \<Rightarrow> string list \<Rightarrow> (error + FirewallGroup) \<times> Client \<times> reply list" where
  "CreateFirewallGroup net c name members =
     (case ensureLoggedIn net c of
        (Some err, c1, net1) \<Rightarrow> (Inl err, c1, net1)
      | (None, c1, net1) \<Rightarrow>
          (case Do net1 of
             (NoRequest, net2) \<Rightarrow> (Inl FailedToCreateRequest, c1, net2)
           | (NoResponse, net2) \<Rightarrow> (Inl RequestFailed, c1, net2)
           | (Response status body, net2) \<Rightarrow>
               (if status \<noteq> 200 \<and> status \<noteq> 201 then (Inl (UnexpectedStatusCode status), c1, net2)
                else (case body of
                        None \<Rightarrow> (Inl FailedToDecodeResponse, c1, net2)
                      | Some data \<Rightarrow>
                          (case data of
                             [] \<Rightarrow> (Inl NoGroupReturned, c1, net2)
                           | grp # _ \<Rightarrow> (Inr grp, c1, net2))))))"

definition UpdateFirewallGroup ::
  "reply list \<Rightarrow> Client \<Rightarrow> string \<Rightarrow> string list \<Rightarrow> error option \<times> Client \<times> reply list" where
  "UpdateFirewallGroup net c groupID members =
     (case ensureLoggedIn net c of
        (Some err, c1, net1) \<Rightarrow> (Some err, c1, net1)
      | (None, c1, net1) \<Rightarrow>
          (case Do net1 of
             (NoRequest, net2) \<Rightarrow> (Some FailedToCreateRequest, c1, net2)
           | (NoResponse, net2) \<Rightarrow> (Some RequestFailed, c1, net2)
           | (Response status body, net2) \<Rightarrow>
               (if status \<noteq> 200 then (Some (UnexpectedStatusCode status), c1, net2)
                else (None, c1, net2))))"

section \<open>The health recorder\<close>

text \<open>
  \<open>HealthServer\<close> implements the \<open>HealthRecorder\<close> interface: its counters and its ready flag
  (\<open>lastSync\<close>, a wall-clock time, is left out).
\<close>

record HealthServer =
  ready :: bool
  syncCount :: "64 word"
  errorCount :: "64 word"

definition RecordSync :: "HealthServer \<Rightarrow> HealthServer" where
  "RecordSync hs = hs\<lparr>syncCount := syncCount hs + 1, ready := True\<rparr>"

definition RecordError :: "HealthServer \<Rightarrow> HealthServer" where
  "RecordError hs = hs\<lparr>errorCount := errorCount hs + 1\<rparr>"

section \<open>The orchestrator\<close>

record Config =
  GroupName :: string
  Feeds :: "FeedConfig list"

text \<open>\<open>healthRecorder\<close> is \<open>None\<close> when the interface value is \<open>nil\<close>.\<close>

record Syncer =
  config :: Config
  unifiClient :: Client
  lastHash :: string
  healthRecorder :: "HealthServer option"

definition New :: "Config \<Rightarrow> Client \<Rightarrow> Syncer" where
  "New cfg c = \<lparr>config = cfg, unifiClient = c, lastHash = [], healthRecorder = None\<rparr>"

definition SetHealthRecorder :: "HealthServer \<Rightarrow> Syncer \<Rightarrow> Syncer" where
  "SetHealthRecorder hr s = s\<lparr>healthRecorder := Some hr\<rparr>"

text \<open>
  \<open>fetchAllFeeds\<close>: the loop over the enabled feeds, \<open>allNetworks\<close> being its accumulator.
  A feed whose parser is unknown or whose \<open>Parse\<close> fails is skipped.
\<close>

fun fetchAllFeeds_loop :: "registry \<Rightarrow> web \<Rightarrow> FeedConfig list \<Rightarrow> IPNet list \<Rightarrow> IPNet list" where
  "fetchAllFeeds_loop reg w [] allNetworks = allNetworks"
| "fetchAllFeeds_loop reg w (feedConfig # rest) allNetworks =
     (case Get reg (Parser feedConfig) of
        Inl err \<Rightarrow> fetchAllFeeds_loop reg w rest allNetworks
      | Inr p \<Rightarrow>
          (case p w feedConfig of
             Inl err \<Rightarrow> fetchAllFeeds_loop reg w rest allNetworks
           | Inr networks \<Rightarrow> fetchAllFeeds_loop reg w rest (allNetworks @ networks)))"

definition fetchAllFeeds :: "registry \<Rightarrow> web \<Rightarrow> Syncer \<Rightarrow> error + IPNet list" where
  "fetchAllFeeds reg w s = Inr (fetchAllFeeds_loop reg w (GetEnabled (Feeds (config s))) [])"

text \<open>
  The calls of the remote client that a cycle makes, in order, with their arguments.
\<close>

datatype call =
    GetGroup string
  | CreateGroup string "string list"
  | UpdateGroup string "string list"

text \<open>
  \<open>Syncer.Run\<close> (package \<open>sync\<close>, in client.go): one cycle. It returns the error (\<open>None\<close> is \<open>nil\<close>), the orchestrator after the
  cycle, the calls made to the remote client, and what is left of the controller's
  answers.
\<close>

record outcome =
  err :: "error option"
  syncer :: Syncer
  calls :: "call list"
  remaining :: "reply list"

definition Run :: "registry \<Rightarrow> web \<Rightarrow> reply list \<Rightarrow> Syncer \<Rightarrow> outcome" where
  "Run reg w net s =
     (case fetchAllFeeds reg w s of
        Inl e \<Rightarrow> \<lparr>err = Some (FailedToFetchFeeds e), syncer = s, calls = [], remaining = net\<rparr>
      | Inr allNetworks \<Rightarrow>
          (let normalized = Normalize allNetworks;
               currentHash = calculateHash normalized
           in if currentHash = lastHash s then
                \<lparr>err = None, syncer = s, calls = [], remaining = net\<rparr>
              else
                (let members = ToStrings normalized;
                     name = GroupName (config s)
                 in case GetFirewallGroup net (unifiClient s) name of
                      (Inl e1, c1, net1) \<Rightarrow>
                        (case CreateFirewallGroup net1 c1 name members of
                           (Inl e2, c2, net2) \<Rightarrow>
                             \<lparr>err = Some (FailedToCreateFirewallGroup e2),
                              syncer = s\<lparr>unifiClient := c2\<rparr>,
                              calls = [GetGroup name, CreateGroup name members],
                              remaining = net2\<rparr>
                         | (Inr grp, c2, net2) \<Rightarrow>
                             \<lparr>err = None,
                              syncer = s\<lparr>unifiClient := c2, lastHash := currentHash,
                                         healthRecorder := map_option RecordSync (healthRecorder s)\<rparr>,
                              calls = [GetGroup name, CreateGroup name members],
                              remaining = net2\<rparr>)
                    | (Inr grp, c1, net1) \<Rightarrow>
                        (case UpdateFirewallGroup net1 c1 (ID grp) members of
                           (Some e2, c2, net2) \<Rightarrow>
                             \<lparr>err = Some (FailedToUpdateFirewallGroup e2),
                              syncer = s\<lparr>unifiClient := c2\<rparr>,
                              calls = [GetGroup name, UpdateGroup (ID grp) members],
                              remaining = net2\<rparr>
                         | (None, c2, net2) \<Rightarrow>
                             \<lparr>err = None,
                              syncer = s\<lparr>unifiClient := c2, lastHash := currentHash,
                                         healthRecorder := map_option RecordSync (healthRecorder s)\<rparr>,
                              calls = [GetGroup name, UpdateGroup (ID grp) members],
                              remaining = net2\<rparr>))))"

section \<open>Auxiliary notions and example inputs\<close>

text \<open>
  A feed fails in \<open>fetchAllFeeds\<close> when its parser is not registered or its \<open>Parse\<close>
  returns an error: the two branches of the loop that skip the feed.
\<close>

definition feed_fails :: "registry \<Rightarrow> web \<Rightarrow> FeedConfig \<Rightarrow> bool" where
  "feed_fails reg w feedConfig =
     (case Get reg (Parser feedConfig) of
        Inl e \<Rightarrow> True
      | Inr p \<Rightarrow> (case p w feedConfig of Inl e \<Rightarrow> True | Inr networks \<Rightarrow> False))"

text \<open>
  The network an entry denotes: the 16-byte addresses that agree with the entry's address on
  the bits of its mask, a 4-byte address being read in its IPv4-mapped 16-byte form and a
  4-byte mask as the last four bytes of a 16-byte mask whose first twelve are all ones. Two
  entries denote the same network when they cover the same addresses.
\<close>

definition to16 :: "byte list \<Rightarrow> byte list" where
  "to16 ip = (if length ip = 4 then v4InV6Prefix @ ip else ip)"

definition mask16 :: "byte list \<Rightarrow> byte list" where
  "mask16 m = (if length m = 4 then replicate 12 0xff @ m else m)"

definition covers :: "IPNet \<Rightarrow> byte list \<Rightarrow> bool" where
  "covers n a = (length a = 16 \<and>
     map2 (AND) a (mask16 (Mask n)) = map2 (AND) (to16 (IP n)) (mask16 (Mask n)))"

definition same_network :: "IPNet \<Rightarrow> IPNet \<Rightarrow> bool" where
  "same_network n1 n2 = (\<forall>a. covers n1 a = covers n2 a)"

text \<open>
  The shapes of the entries that \<open>parseIPOrCIDR\<close> builds: address and mask of the same
  length, or a 16-byte IPv4-mapped address with a 4-byte mask; and the address has no bit
  outside the mask.
\<close>

definition canonical_shape :: "IPNet \<Rightarrow> bool" where
  "canonical_shape n =
     (((length (IP n) = 4 \<and> length (Mask n) = 4) \<or>
       (length (IP n) = 16 \<and> length (Mask n) = 16) \<or>
       (length (IP n) = 16 \<and> length (Mask n) = 4 \<and> IP_To4 (IP n) \<noteq> None)) \<and>
      map2 (AND) (to16 (IP n)) (mask16 (Mask n)) = to16 (IP n))"

text \<open>
  Concrete inputs for the examples below: a configuration with two enabled feeds, one of
  them naming a parser that is not registered; feed sources; answers of the controller.
\<close>

definition example_feed :: FeedConfig where
  "example_feed = \<lparr>Name = ''blocklist'', URL = ''https://feeds.example/list.txt'',
                    Parser = ''plain'', Enabled = True, Timeout = ''30s''\<rparr>"

definition unknown_feed :: FeedConfig where
  "unknown_feed = \<lparr>Name = ''reports'', URL = ''https://feeds.example/reports.json'',
                    Parser = ''abuseipdb'', Enabled = True, Timeout = ''30s''\<rparr>"

definition example_client :: Client where
  "example_client = \<lparr>baseURL = ''https://unifi.example'', loggedIn = True\<rparr>"

definition example_recorder :: HealthServer where
  "example_recorder = \<lparr>ready = False, syncCount = 0, errorCount = 0\<rparr>"

definition example_syncer :: Syncer where
  "example_syncer =
     SetHealthRecorder example_recorder
       (New \<lparr>GroupName = ''uts-block-list'', Feeds = [unknown_feed, example_feed]\<rparr> example_client)"

definition web_A :: web where
  "web_A url = FeedResponse 200
     \<lparr>content = ''10.0.0.0/8'' @ [CHR 0x0A] @ ''192.168.1.1'' @ [CHR 0x0A], read_error = False\<rparr>"

definition web_B :: web where
  "web_B url = FeedResponse 200
     \<lparr>content = ''203.0.113.5'' @ [CHR 0x0A], read_error = False\<rparr>"

definition web_down :: web where
  "web_down url = FeedNoResponse"

definition example_group :: FirewallGroup where
  "example_group = \<lparr>ID = ''65a1'', group_Name = ''uts-block-list'', Type = ''address-group'', Members = [''198.51.100.0/24'']\<rparr>"

definition found_then_ok :: "reply list" where
  "found_then_ok = [Response 200 (Some [example_group]), Response 200 None]"

definition error_then_created :: "reply list" where
  "error_then_created = [Response 500 None, Response 201 (Some [example_group])]"

text \<open>
  Three cycles in a row: a first one that succeeds, a second one on changed feeds while
  the controller does not answer, a third one on the feeds of the first.
\<close>

definition first_cycle :: outcome where
  "first_cycle = Run init_registry web_A found_then_ok example_syncer"

definition failed_cycle :: outcome where
  "failed_cycle = Run init_registry web_B [] (syncer first_cycle)"

definition third_cycle :: outcome where
  "third_cycle = Run init_registry web_A found_then_ok (syncer failed_cycle)"

section \<open>Properties of the normalizer\<close>

lemma set_update_subset: "set (AList.update k v al) \<subseteq> insert (k, v) (set al)"
  by (induction al) auto

text \<open>
  The invariant of the loop that fills \<open>seen\<close>: the keys are pairwise distinct, every value
  is stored under its own canonical string, and the keys are those of the entries read.
\<close>

lemma seen_fold_inv:
  assumes "distinct (map fst acc)" and "\<And>k v. (k, v) \<in> set acc \<Longrightarrow> IPNet_String v = k"
  shows "distinct (map fst (fold (\<lambda>network seen. AList.update (IPNet_String network) network seen) xs acc))
       \<and> (\<forall>(k, v) \<in> set (fold (\<lambda>network seen. AList.update (IPNet_String network) network seen) xs acc). IPNet_String v = k)
       \<and> fst ` set (fold (\<lambda>network seen. AList.update (IPNet_String network) network seen) xs acc)
           = IPNet_String ` set xs \<union> fst ` set acc"
  using assms
proof (induction xs arbitrary: acc)
  case Nil
  then show ?case by auto
next
  case (Cons x xs)
  let ?acc = "AList.update (IPNet_String x) x acc"
  have d: "distinct (map fst ?acc)" using Cons.prems(1) by (rule distinct_update)
  have k: "\<And>k v. (k, v) \<in> set ?acc \<Longrightarrow> IPNet_String v = k"
    using Cons.prems(2) set_update_subset [of "IPNet_String x" x acc] by auto
  have "fst ` set ?acc = {IPNet_String x} \<union> fst ` set acc" by (rule dom_update)
  with Cons.IH [OF d k] show ?case by auto
qed

lemma seen_of_distinct: "distinct (map fst (seen_of xs))"
  using seen_fold_inv [of "[]" xs] by (simp add: seen_of_def)

lemma seen_of_keys: "map IPNet_String (map snd (seen_of xs)) = map fst (seen_of xs)"
  using seen_fold_inv [of "[]" xs] by (auto simp: seen_of_def)

lemma seen_of_dom: "set (map fst (seen_of xs)) = IPNet_String ` set xs"
  using seen_fold_inv [of "[]" xs] by (simp add: seen_of_def)

text \<open>
  Whatever order the map is iterated in and whatever the sort does with equal keys, the
  result is the same: any arrangement of the map's values that is sorted by canonical
  string is the list \<open>Normalize\<close> returns.
\<close>

lemma Normalize_any_order:
  assumes "mset ys = mset (map snd (seen_of xs))" and "sorted (map IPNet_String ys)" and "xs \<noteq> []"
  shows "ys = Normalize xs"
proof -
  have "distinct (map IPNet_String (map snd (seen_of xs)))"
    using seen_of_distinct [of xs] by (simp only: seen_of_keys)
  then have "inj_on IPNet_String (set (map snd (seen_of xs)))"
    by (simp only: distinct_map)
  then have "sort_key IPNet_String (map snd (seen_of xs)) = ys"
    using assms(1,2) by (intro sort_key_inj_key_eq) simp_all
  with assms(3) show ?thesis by (simp add: Normalize_def)
qed

text \<open>The canonical strings of the output: those of the input, each once, in ascending order.\<close>

lemma ToStrings_Normalize: "ToStrings (Normalize xs) = sorted_list_of_set (IPNet_String ` set xs)"
proof (cases "xs = []")
  case True
  then show ?thesis by (simp add: Normalize_def ToStrings_def)
next
  case False
  let ?vs = "map snd (seen_of xs)"
  let ?out = "map IPNet_String (sort_key IPNet_String ?vs)"
  have s: "sorted ?out" by (rule sorted_sort_key)
  have "mset ?out = mset (map IPNet_String ?vs)"
    by (simp only: mset_map mset_sort)
  then have m: "mset ?out = mset (map fst (seen_of xs))"
    by (simp only: seen_of_keys)
  have d: "distinct ?out"
    using seen_of_distinct [of xs] m by (metis mset_eq_imp_distinct_iff)
  have "set ?out = IPNet_String ` set xs"
    using m seen_of_dom [of xs] by (metis mset_eq_setD)
  then have "sorted_list_of_set (IPNet_String ` set xs) = ?out"
    using s d by (metis sorted_list_of_set.idem_if_sorted_distinct)
  with False show ?thesis by (simp add: Normalize_def ToStrings_def)
qed

lemma Normalize_Nil: "Normalize [] = []"
  by (simp add: Normalize_def)

section \<open>Properties of the fingerprint\<close>

text \<open>The fingerprint has 64 characters; in particular it is never the empty string.\<close>

lemma length_hexString: "length (hexString b) = 2 * length b"
  by (induction b) (auto simp: hexString_def)

lemma length_sha256_round: "length (sha256_round kw s) = length s"
  by (induction kw s rule: sha256_round.induct) (auto simp: Let_def)

lemma length_fold_sha256_round: "length (fold sha256_round kws s) = length s"
  by (induction kws arbitrary: s) (auto simp: length_sha256_round)

lemma length_sha256_block: "length (sha256_block h blk) = length h"
  by (simp add: sha256_block_def length_fold_sha256_round)

lemma length_sha256_blocks: "length (sha256_blocks h p) = length h"
proof (induction h p rule: sha256_blocks.induct)
  case (1 h p)
  then show ?case
    by (subst sha256_blocks.simps) (simp add: length_sha256_block)
qed

lemma length_concat_be_bytes: "length (concat (map be_bytes ws)) = 4 * length ws"
  by (induction ws) (auto simp: be_bytes_def)

lemma length_Sum256: "length (Sum256 msg) = 32"
  by (simp add: Sum256_def length_concat_be_bytes length_sha256_blocks sha256_init_def)

lemma length_calculateHash: "length (calculateHash networks) = 64"
  by (simp add: calculateHash_def EncodeToString_def length_hexString length_Sum256 Let_def)

lemma calculateHash_not_empty: "calculateHash networks \<noteq> []"
  using length_calculateHash [of networks] by auto

text \<open>
  Rewriting rules for evaluating the hash on a concrete message: a rotation as two shifts, one
  step of the message schedule on a window written out, and a message of a single block.
\<close>

lemma word_rotr_32: "n < 32 \<Longrightarrow> word_rotr n (w :: 32 word) = drop_bit n w OR push_bit (32 - n) (take_bit n w)"
proof (rule bit_word_eqI)
  fix k assume n: "n < 32" and k: "k < LENGTH(32)"
  show "bit (word_rotr n w) k = bit (drop_bit n w OR push_bit (32 - n) (take_bit n w)) k"
  proof (cases "k + n < 32")
    case True
    then show ?thesis using k n
      by (auto simp: bit_word_rotr_iff bit_or_iff bit_drop_bit_eq bit_push_bit_iff bit_take_bit_iff ac_simps)
  next
    case False
    then have m: "(k + n) mod 32 = k + n - 32" using k n by (simp add: le_mod_geq)
    have nb: "\<not> bit w (n + k)" using False by (auto dest: bit_imp_le_length)
    have "k - (32 - n) = k + n - 32" using False n by simp
    then show ?thesis using k n False nb m
      by (auto simp: bit_word_rotr_iff bit_or_iff bit_drop_bit_eq bit_push_bit_iff bit_take_bit_iff)
  qed
qed

lemma schedule_numeral:
  "schedule (numeral k) [w0, w1, w2, w3, w4, w5, w6, w7, w8, w9, w10, w11, w12, w13, w14, w15] =
     ((word_rotr 17 w14 XOR word_rotr 19 w14 XOR drop_bit 10 w14) + w9 +
      (word_rotr 7 w1 XOR word_rotr 18 w1 XOR drop_bit 3 w1) + w0) #
     schedule (pred_numeral k)
       [w1, w2, w3, w4, w5, w6, w7, w8, w9, w10, w11, w12, w13, w14, w15,
        (word_rotr 17 w14 XOR word_rotr 19 w14 XOR drop_bit 10 w14) + w9 +
        (word_rotr 7 w1 XOR word_rotr 18 w1 XOR drop_bit 3 w1) + w0]"
  by (simp add: numeral_eq_Suc Let_def)

lemma sha256_blocks_single: "length p = 64 \<Longrightarrow> sha256_blocks h p = sha256_block h p"
  by (subst sha256_blocks.simps, subst sha256_blocks.simps) simp

section \<open>One cycle of the orchestrator\<close>

text \<open>
  The two ways a cycle goes. When the fingerprint equals \<open>lastHash\<close> nothing happens. Otherwise
  the remote client is called twice: for the group, and to create or to update it with the
  new members; the fingerprint and the health recorder change only when that succeeds.
\<close>

lemma Run_unchanged:
  "calculateHash (Normalize (fetchAllFeeds_loop reg w (GetEnabled (Feeds (config s))) [])) = lastHash s \<Longrightarrow>
   Run reg w net s = \<lparr>err = None, syncer = s, calls = [], remaining = net\<rparr>"
  by (simp add: Run_def fetchAllFeeds_def Let_def)

lemma Run_changed:
  assumes "calculateHash (Normalize (fetchAllFeeds_loop reg w (GetEnabled (Feeds (config s))) [])) \<noteq> lastHash s"
  shows "\<exists>c cl. calls (Run reg w net s) = [GetGroup (GroupName (config s)), c]
           \<and> (c = CreateGroup (GroupName (config s)) (ToStrings (Normalize (fetchAllFeeds_loop reg w (GetEnabled (Feeds (config s))) [])))
              \<or> (\<exists>gid. c = UpdateGroup gid (ToStrings (Normalize (fetchAllFeeds_loop reg w (GetEnabled (Feeds (config s))) [])))))
           \<and> ((\<exists>e. err (Run reg w net s) = Some e \<and> syncer (Run reg w net s) = s\<lparr>unifiClient := cl\<rparr>)
              \<or> (err (Run reg w net s) = None \<and>
                  syncer (Run reg w net s) =
                    s\<lparr>unifiClient := cl,
                      lastHash := calculateHash (Normalize (fetchAllFeeds_loop reg w (GetEnabled (Feeds (config s))) [])),
                      healthRecorder := map_option RecordSync (healthRecorder s)\<rparr>))"
  using assms
  by (auto simp: Run_def fetchAllFeeds_def Let_def split: sum.splits prod.splits option.splits)

lemma Run_err_cases:
  "err (Run reg w net s) = None \<or>
   (\<exists>e. err (Run reg w net s) = Some (FailedToCreateFirewallGroup e)) \<or>
   (\<exists>e. err (Run reg w net s) = Some (FailedToUpdateFirewallGroup e))"
  by (auto simp: Run_def fetchAllFeeds_def Let_def split: sum.splits prod.splits option.splits)

lemma fetchAllFeeds_loop_all_fail:
  "list_all (feed_fails reg w) fs \<Longrightarrow> fetchAllFeeds_loop reg w fs acc = acc"
  by (induction fs arbitrary: acc)
     (auto simp: feed_fails_def split: sum.splits)

section \<open>The example inputs, evaluated\<close>

declare fetchAllFeeds_loop.simps [simp del]

lemma fetch_web_A:
  "fetchAllFeeds_loop init_registry web_A [unknown_feed, example_feed] [] =
     [\<lparr>IP = [10, 0, 0, 0], Mask = [255, 0, 0, 0]\<rparr>,
      \<lparr>IP = [0, 0, 0, 0, 0, 0, 0, 0, 0, 0, 255, 255, 192, 168, 1, 1], Mask = [255, 255, 255, 255]\<rparr>]"
  by code_simp

lemma fetch_web_B:
  "fetchAllFeeds_loop init_registry web_B [unknown_feed, example_feed] [] =
     [\<lparr>IP = [0, 0, 0, 0, 0, 0, 0, 0, 0, 0, 255, 255, 203, 0, 113, 5], Mask = [255, 255, 255, 255]\<rparr>]"
  by code_simp

lemma fetch_web_down:
  "fetchAllFeeds_loop init_registry web_down [unknown_feed, example_feed] [] = []"
  by code_simp

lemma members_A:
  "ToStrings (Normalize
     [\<lparr>IP = [10, 0, 0, 0], Mask = [255, 0, 0, 0]\<rparr>,
      \<lparr>IP = [0, 0, 0, 0, 0, 0, 0, 0, 0, 0, 255, 255, 192, 168, 1, 1], Mask = [255, 255, 255, 255]\<rparr>])
   = [''10.0.0.0/8'', ''192.168.1.1/32'']"
  by code_simp

lemma members_B:
  "ToStrings (Normalize
     [\<lparr>IP = [0, 0, 0, 0, 0, 0, 0, 0, 0, 0, 255, 255, 203, 0, 113, 5], Mask = [255, 255, 255, 255]\<rparr>])
   = [''203.0.113.5/32'']"
  by code_simp

lemma enabled_example: "GetEnabled (Feeds (config example_syncer)) = [unknown_feed, example_feed]"
  by (simp add: example_syncer_def SetHealthRecorder_def New_def GetEnabled_def unknown_feed_def example_feed_def)

lemma example_syncer_fields:
  "lastHash example_syncer = []" "GroupName (config example_syncer) = ''uts-block-list''"
  "unifiClient example_syncer = example_client" "healthRecorder example_syncer = Some example_recorder"
  by (simp_all add: example_syncer_def SetHealthRecorder_def New_def)

lemma get_found:
  "GetFirewallGroup (Response 200 (Some [example_group]) # net) example_client ''uts-block-list''
     = (Inr example_group, example_client, net)"
  by (simp add: GetFirewallGroup_def ensureLoggedIn_def Do_def example_client_def example_group_def)

lemma get_status_500:
  "GetFirewallGroup (Response 500 None # net) example_client ''uts-block-list''
     = (Inl (UnexpectedStatusCode 500), example_client, net)"
  by (simp add: GetFirewallGroup_def ensureLoggedIn_def Do_def example_client_def)

lemma get_unreachable:
  "GetFirewallGroup [] example_client ''uts-block-list'' = (Inl RequestFailed, example_client, [])"
  by (simp add: GetFirewallGroup_def ensureLoggedIn_def Do_def example_client_def)

lemma create_unreachable:
  "CreateFirewallGroup [] example_client name members = (Inl RequestFailed, example_client, [])"
  by (simp add: CreateFirewallGroup_def ensureLoggedIn_def Do_def example_client_def)

lemma create_ok:
  "CreateFirewallGroup (Response 201 (Some [example_group]) # net) example_client name members
     = (Inr example_group, example_client, net)"
  by (simp add: CreateFirewallGroup_def ensureLoggedIn_def Do_def example_client_def)

lemma update_ok:
  "UpdateFirewallGroup (Response 200 body # net) example_client gid members = (None, example_client, net)"
  by (simp add: UpdateFirewallGroup_def ensureLoggedIn_def Do_def example_client_def)

lemmas example_simps =
  enabled_example example_syncer_fields get_found get_status_500 get_unreachable create_unreachable
  create_ok update_ok calculateHash_not_empty calculateHash_not_empty [symmetric]

lemma feeds_fail_down: "list_all (feed_fails init_registry web_down) [unknown_feed, example_feed]"
  by code_simp

text \<open>
  The SHA-256 digests of the two example sets, that is of the lines \<open>10.0.0.0/8\<close>,
  \<open>192.168.1.1/32\<close> and of the line \<open>203.0.113.5/32\<close>, each line with its newline;
  evaluated stage by stage: padding, words, schedule, rounds, sum. Then the fingerprints.
\<close>

lemma digest_A:
  "Sum256 [49, 48, 46, 48, 46, 48, 46, 48, 47, 56, 10, 49, 57, 50, 46, 49, 54, 56, 46, 49, 46, 49,
          47, 51, 50, 10] =
     [237, 211, 86, 100, 159, 161, 233, 141, 19, 184, 102, 54, 205, 154, 195, 143, 82, 156, 67,
       181, 57, 61, 81, 32, 119, 133, 216, 42, 139, 122, 60, 1]"
proof -
  have pad: "sha256_pad [49, 48, 46, 48, 46, 48, 46, 48, 47, 56, 10, 49, 57, 50, 46, 49, 54, 56, 46, 49, 46, 49,
          47, 51, 50, 10] =
        [49, 48, 46, 48, 46, 48, 46, 48, 47, 56, 10, 49, 57, 50, 46, 49, 54, 56, 46, 49, 46, 49,
          47, 51, 50, 10, 128, 0, 0, 0, 0, 0, 0, 0, 0, 0, 0, 0, 0, 0, 0, 0, 0, 0, 0, 0, 0, 0, 0, 0,
          0, 0, 0, 0, 0, 0, 0, 0, 0, 0, 0, 0, 0, 208]"
    by code_simp
  have w: "be_words
        [49, 48, 46, 48, 46, 48, 46, 48, 47, 56, 10, 49, 57, 50, 46, 49, 54, 56, 46, 49, 46, 49,
          47, 51, 50, 10, 128, 0, 0, 0, 0, 0, 0, 0, 0, 0, 0, 0, 0, 0, 0, 0, 0, 0, 0, 0, 0, 0, 0, 0,
          0, 0, 0, 0, 0, 0, 0, 0, 0, 0, 0, 0, 0, 208] =
        [825241136, 774909488, 792201777, 959589937, 909651505, 774975283, 839548928, 0, 0, 0, 0,
          0, 0, 0, 0, 208]"
    by simp
  have sch: "schedule 48
        [825241136, 774909488, 792201777, 959589937, 909651505, 774975283, 839548928, 0, 0, 0, 0,
          0, 0, 0, 0, 208] =
        [2672204870, 2480367820, 3147614195, 28611728, 1505232881, 2905663102, 890989242,
          253913933, 1809744832, 879343330, 2469880772, 1196969669, 183434403, 1674004494,
          1360907005, 4072966714, 2169765956, 3178082878, 2282854414, 1687390793, 2382870458,
          1529561720, 1444075161, 2268647225, 171156519, 2122789546, 808828758, 1289787572,
          2435125742, 2608368894, 1283003146, 3992418222, 2989188957, 2899245665, 824518084,
          558024336, 2334409912, 1895744692, 1058731493, 2593165735, 1925977324, 3491840837,
          563628863, 3984622599, 4235866087, 2267099533, 3603464017, 2492505729]"
    by (simp add: word_rotr_32 schedule_numeral)
  have rnd: "fold sha256_round (zip sha256_K
        [825241136, 774909488, 792201777, 959589937, 909651505, 774975283, 839548928, 0, 0, 0, 0,
          0, 0, 0, 0, 208, 2672204870, 2480367820, 3147614195, 28611728, 1505232881, 2905663102,
          890989242, 253913933, 1809744832, 879343330, 2469880772, 1196969669, 183434403,
          1674004494, 1360907005, 4072966714, 2169765956, 3178082878, 2282854414, 1687390793,
          2382870458, 1529561720, 1444075161, 2268647225, 171156519, 2122789546, 808828758,
          1289787572, 2435125742, 2608368894, 1283003146, 3992418222, 2989188957, 2899245665,
          824518084, 558024336, 2334409912, 1895744692, 1058731493, 2593165735, 1925977324,
          3491840837, 563628863, 3984622599, 4235866087, 2267099533, 3603464017, 2492505729]) sha256_init =
        [2211016701, 3829021448, 3611914948, 675991125, 26079542, 2654464148, 1476525695, 798584552]"
    by (simp add: sha256_K_def sha256_init_def Let_def word_rotr_32)
  have "sha256_blocks sha256_init
        [49, 48, 46, 48, 46, 48, 46, 48, 47, 56, 10, 49, 57, 50, 46, 49, 54, 56, 46, 49, 46, 49,
          47, 51, 50, 10, 128, 0, 0, 0, 0, 0, 0, 0, 0, 0, 0, 0, 0, 0, 0, 0, 0, 0, 0, 0, 0, 0, 0, 0,
          0, 0, 0, 0, 0, 0, 0, 0, 0, 0, 0, 0, 0, 208] =
      sha256_block sha256_init
        [49, 48, 46, 48, 46, 48, 46, 48, 47, 56, 10, 49, 57, 50, 46, 49, 54, 56, 46, 49, 46, 49,
          47, 51, 50, 10, 128, 0, 0, 0, 0, 0, 0, 0, 0, 0, 0, 0, 0, 0, 0, 0, 0, 0, 0, 0, 0, 0, 0, 0,
          0, 0, 0, 0, 0, 0, 0, 0, 0, 0, 0, 0, 0, 208]"
    by (rule sha256_blocks_single) simp
  also have "\<dots> = map2 (+) sha256_init
        [2211016701, 3829021448, 3611914948, 675991125, 26079542, 2654464148, 1476525695, 798584552]"
    unfolding sha256_block_def w sch by (simp add: rnd)
  finally show ?thesis
    unfolding Sum256_def pad by (simp add: sha256_init_def be_bytes_def)
qed

lemma digest_B:
  "Sum256 [50, 48, 51, 46, 48, 46, 49, 49, 51, 46, 53, 47, 51, 50, 10] =
     [6, 55, 121, 128, 24, 207, 76, 2, 61, 51, 18, 127, 146, 182, 218, 96, 28, 4, 190, 186, 32,
       231, 229, 251, 33, 20, 89, 27, 223, 146, 49, 219]"
proof -
  have pad: "sha256_pad [50, 48, 51, 46, 48, 46, 49, 49, 51, 46, 53, 47, 51, 50, 10] =
        [50, 48, 51, 46, 48, 46, 49, 49, 51, 46, 53, 47, 51, 50, 10, 128, 0, 0, 0, 0, 0, 0, 0, 0,
          0, 0, 0, 0, 0, 0, 0, 0, 0, 0, 0, 0, 0, 0, 0, 0, 0, 0, 0, 0, 0, 0, 0, 0, 0, 0, 0, 0, 0, 0,
          0, 0, 0, 0, 0, 0, 0, 0, 0, 120]"
    by code_simp
  have w: "be_words
        [50, 48, 51, 46, 48, 46, 49, 49, 51, 46, 53, 47, 51, 50, 10, 128, 0, 0, 0, 0, 0, 0, 0, 0,
          0, 0, 0, 0, 0, 0, 0, 0, 0, 0, 0, 0, 0, 0, 0, 0, 0, 0, 0, 0, 0, 0, 0, 0, 0, 0, 0, 0, 0, 0,
          0, 0, 0, 0, 0, 0, 0, 0, 0, 120] =
        [842019630, 808333617, 858666287, 858917504, 0, 0, 0, 0, 0, 0, 0, 0, 0, 0, 0, 120]"
    by simp
  have sch: "schedule 48
        [842019630, 808333617, 858666287, 858917504, 0, 0, 0, 0, 0, 0, 0, 0, 0, 0, 0, 120] =
        [442108285, 94996277, 4251326364, 649024128, 3372398746, 1125760086, 191659399, 67844349,
          3072018169, 4173740006, 4064116287, 2788445072, 1409172572, 3087026261, 3738866973,
          1598711342, 917390840, 459107790, 1579275933, 412782748, 511582660, 1282052349,
          1951016857, 2304690085, 2292985742, 1343773292, 3294336395, 250688105, 118737206,
          1894128407, 3570512950, 515022660, 933082808, 1088770679, 2040489066, 647367408,
          1161110820, 2599650556, 3035936126, 2074828968, 1510433741, 2423835610, 3889475499,
          1870281470, 173644762, 2589201995, 2068584537, 498511571]"
    by (simp add: word_rotr_32 schedule_numeral)
  have rnd: "fold sha256_round (zip sha256_K
        [842019630, 808333617, 858666287, 858917504, 0, 0, 0, 0, 0, 0, 0, 0, 0, 0, 0, 120,
          442108285, 94996277, 4251326364, 649024128, 3372398746, 1125760086, 191659399, 67844349,
          3072018169, 4173740006, 4064116287, 2788445072, 1409172572, 3087026261, 3738866973,
          1598711342, 917390840, 459107790, 1579275933, 412782748, 511582660, 1282052349,
          1951016857, 2304690085, 2292985742, 1343773292, 3294336395, 250688105, 118737206,
          1894128407, 3570512950, 515022660, 933082808, 1088770679, 2040489066, 647367408,
          1161110820, 2599650556, 3035936126, 2074828968, 1510433741, 2423835610, 3889475499,
          1870281470, 173644762, 2589201995, 2068584537, 498511571]) sha256_init =
        [2620232473, 1567071613, 12853005, 3982943526, 3405147195, 2246212975, 26247024, 2209440962]"
    by (simp add: sha256_K_def sha256_init_def Let_def word_rotr_32)
  have "sha256_blocks sha256_init
        [50, 48, 51, 46, 48, 46, 49, 49, 51, 46, 53, 47, 51, 50, 10, 128, 0, 0, 0, 0, 0, 0, 0, 0,
          0, 0, 0, 0, 0, 0, 0, 0, 0, 0, 0, 0, 0, 0, 0, 0, 0, 0, 0, 0, 0, 0, 0, 0, 0, 0, 0, 0, 0, 0,
          0, 0, 0, 0, 0, 0, 0, 0, 0, 120] =
      sha256_block sha256_init
        [50, 48, 51, 46, 48, 46, 49, 49, 51, 46, 53, 47, 51, 50, 10, 128, 0, 0, 0, 0, 0, 0, 0, 0,
          0, 0, 0, 0, 0, 0, 0, 0, 0, 0, 0, 0, 0, 0, 0, 0, 0, 0, 0, 0, 0, 0, 0, 0, 0, 0, 0, 0, 0, 0,
          0, 0, 0, 0, 0, 0, 0, 0, 0, 120]"
    by (rule sha256_blocks_single) simp
  also have "\<dots> = map2 (+) sha256_init
        [2620232473, 1567071613, 12853005, 3982943526, 3405147195, 2246212975, 26247024, 2209440962]"
    unfolding sha256_block_def w sch by (simp add: rnd)
  finally show ?thesis
    unfolding Sum256_def pad by (simp add: sha256_init_def be_bytes_def)
qed

lemma fingerprint_A:
  "calculateHash (Normalize (fetchAllFeeds_loop init_registry web_A [unknown_feed, example_feed] []))
     = ''edd356649fa1e98d13b86636cd9ac38f529c43b5393d51207785d82a8b7a3c01''"
proof -
  have b: "map of_char (concat (map (\<lambda>str. str @ [CHR 0x0A]) (sort [''10.0.0.0/8'', ''192.168.1.1/32'']))) =
        ([49, 48, 46, 48, 46, 48, 46, 48, 47, 56, 10, 49, 57, 50, 46, 49, 54, 56, 46, 49, 46, 49,
          47, 51, 50, 10] :: byte list)"
    by code_simp
  have h: "hexString
        [237, 211, 86, 100, 159, 161, 233, 141, 19, 184, 102, 54, 205, 154, 195, 143, 82, 156, 67,
         181, 57, 61, 81, 32, 119, 133, 216, 42, 139, 122, 60, 1]
      = ''edd356649fa1e98d13b86636cd9ac38f529c43b5393d51207785d82a8b7a3c01''"
    by code_simp
  show ?thesis
    unfolding calculateHash_def Let_def fetch_web_A members_A b digest_A EncodeToString_def h ..
qed

lemma fingerprint_B:
  "calculateHash (Normalize (fetchAllFeeds_loop init_registry web_B [unknown_feed, example_feed] []))
     = ''0637798018cf4c023d33127f92b6da601c04beba20e7e5fb2114591bdf9231db''"
proof -
  have b: "map of_char (concat (map (\<lambda>str. str @ [CHR 0x0A]) (sort [''203.0.113.5/32'']))) =
        ([50, 48, 51, 46, 48, 46, 49, 49, 51, 46, 53, 47, 51, 50, 10] :: byte list)"
    by code_simp
  have h: "hexString
        [6, 55, 121, 128, 24, 207, 76, 2, 61, 51, 18, 127, 146, 182, 218, 96, 28, 4, 190, 186, 32,
         231, 229, 251, 33, 20, 89, 27, 223, 146, 49, 219]
      = ''0637798018cf4c023d33127f92b6da601c04beba20e7e5fb2114591bdf9231db''"
    by code_simp
  show ?thesis
    unfolding calculateHash_def Let_def fetch_web_B members_B b digest_B EncodeToString_def h ..
qed

lemma first_cycle_eq:
  "first_cycle =
           \<lparr>err = None,
            syncer = example_syncer\<lparr>unifiClient := example_client,
                       lastHash := calculateHash (Normalize (fetchAllFeeds_loop init_registry web_A [unknown_feed, example_feed] [])),
                       healthRecorder := Some (RecordSync example_recorder)\<rparr>,
            calls = [GetGroup ''uts-block-list'', UpdateGroup ''65a1'' [''10.0.0.0/8'', ''192.168.1.1/32'']],
            remaining = []\<rparr>"
    unfolding first_cycle_def
    by (simp add: Run_def fetchAllFeeds_def Let_def example_simps found_then_ok_def)
       (simp add: example_group_def fetch_web_A members_A)

section \<open>Canonical strings of parsed entries\<close>

text \<open>Bytewise facts about masks, then: the addresses covered determine address and mask.\<close>

lemma byte_mask_le:
  fixes n1 m1 m2 :: byte
  assumes "n1 AND m1 = n1" and "(n1 OR NOT m1) AND m2 = n1 AND m2"
  shows "m2 AND m1 = m2"
proof (rule bit_eqI)
  fix k assume "possible_bit TYPE(byte) k"
  from assms(1) have a: "bit n1 k \<Longrightarrow> bit m1 k" by (metis bit_and_iff)
  from assms(2) have "bit ((n1 OR NOT m1) AND m2) k = bit (n1 AND m2) k" by simp
  then have b: "((bit n1 k \<or> \<not> bit m1 k) \<and> bit m2 k) = (bit n1 k \<and> bit m2 k)"
    using \<open>possible_bit TYPE(byte) k\<close> by (simp add: bit_and_iff bit_or_iff bit_not_iff)
  show "bit (m2 AND m1) k = bit m2 k"
    using a b by (auto simp: bit_and_iff)
qed

lemma byte_or_not_and:
  fixes n m :: byte
  assumes "n AND m = n"
  shows "(n OR NOT m) AND m = n"
proof (rule bit_eqI)
  fix k assume p: "possible_bit TYPE(byte) k"
  from assms have "bit n k \<Longrightarrow> bit m k" by (metis bit_and_iff)
  then show "bit ((n OR NOT m) AND m) k = bit n k"
    using p by (auto simp: bit_and_iff bit_or_iff bit_not_iff)
qed

lemma masks_equal:
  fixes N1 M1 N2 M2 :: "byte list"
  assumes len: "length N1 = l" "length M1 = l" "length N2 = l" "length M2 = l"
    and m1: "map2 (AND) N1 M1 = N1" and m2: "map2 (AND) N2 M2 = N2"
    and same: "\<And>a. length a = l \<Longrightarrow> (map2 (AND) a M1 = N1) = (map2 (AND) a M2 = N2)"
  shows "N1 = N2 \<and> M1 = M2"
proof -
  have le: "map2 (AND) M' M = M'"
    if len': "length N = l" "length M = l" "length N' = l" "length M' = l"
      and m: "map2 (AND) N M = N"
      and imp: "\<And>a. length a = l \<Longrightarrow> map2 (AND) a M = N \<Longrightarrow> map2 (AND) a M' = N'"
    for N M N' M' :: "byte list"
  proof -
    have n: "\<And>i. i < l \<Longrightarrow> N ! i AND M ! i = N ! i"
      using m len' by (metis (no_types, lifting) length_zip min.idem nth_map nth_zip case_prod_conv)
    let ?a = "map2 (OR) N (map NOT M)"
    have la: "length ?a = l" using len' by simp
    have "map2 (AND) ?a M = N"
      using len' byte_or_not_and [OF n] by (auto simp: list_eq_iff_nth_eq)
    then have a2: "map2 (AND) ?a M' = N'" using imp la by blast
    have "map2 (AND) N M' = N'" using imp [OF len'(1) m] .
    with a2 have "map2 (AND) ?a M' = map2 (AND) N M'" by simp
    then have e: "\<And>i. i < l \<Longrightarrow> (N ! i OR NOT (M ! i)) AND M' ! i = N ! i AND M' ! i"
      using len' by (auto simp: list_eq_iff_nth_eq)
    show ?thesis
      using len' byte_mask_le [OF n e] by (auto simp: list_eq_iff_nth_eq)
  qed
  have a: "map2 (AND) M2 M1 = M2"
    using le [OF len(1,2,3,4) m1] same by blast
  have b: "map2 (AND) M1 M2 = M1"
    using le [OF len(3,4,1,2) m2] same by blast
  have "map2 (AND) M2 M1 = map2 (AND) M1 M2"
    using len by (auto simp: list_eq_iff_nth_eq word_bw_comms)
  with a b have M: "M1 = M2" by simp
  have "map2 (AND) N1 M2 = N2" using same [OF len(1)] m1 by simp
  with M m1 have "N1 = N2" by simp
  with M show ?thesis by simp
qed

text \<open>What the address parsers return: four bytes, or sixteen.\<close>

lemma parseIPv4Fields_loop_length:
  "parseIPv4Fields_loop s prev val digLen octets = Some f \<Longrightarrow> length octets \<le> 3 \<Longrightarrow> length f = 4"
proof (induction s arbitrary: prev val digLen octets)
  case Nil
  then show ?case by (auto split: if_splits)
next
  case (Cons c cs)
  show ?case
  proof (cases "digit_val c")
    case (Some d)
    with Cons.prems have "parseIPv4Fields_loop cs (Some c) (val * 10 + d) (digLen + 1) octets = Some f"
      by (auto split: if_splits)
    then show ?thesis using Cons.prems(2) by (rule Cons.IH)
  next
    case None
    with Cons.prems have "parseIPv4Fields_loop cs (Some c) 0 0 (octets @ [of_nat val]) = Some f"
      and "length octets \<noteq> 3"
      by (auto split: if_splits)
    then show ?thesis using Cons.prems(2) by (intro Cons.IH [of "Some c" 0 0 "octets @ [of_nat val]"]) auto
  qed
qed

lemma parseIPv4Fields_length: "parseIPv4Fields s = Some f \<Longrightarrow> length f = 4"
  unfolding parseIPv4Fields_def by (rule parseIPv4Fields_loop_length) auto

lemma parseIPv6_loop_length:
  "parseIPv6_loop s ip ellipsis = Some (rest, ip', ellipsis') \<Longrightarrow>
   even (length ip) \<Longrightarrow> length ip \<le> 16 \<Longrightarrow> length ip' \<le> 16"
proof (induction s ip ellipsis rule: parseIPv6_loop.induct)
  case (1 s ip ellipsis)
  show ?case
  proof (cases "length ip \<ge> 16")
    case True
    with "1.prems" show ?thesis by (subst (asm) parseIPv6_loop.simps) auto
  next
    case False
    then have lt: "length ip + 2 \<le> 16" using "1.prems"(2,3) by presburger
    from "1.prems"(1) False obtain off acc where hg: "hex_group s 0 0 = Some (off, acc)" and off: "off \<noteq> 0"
      by (subst (asm) parseIPv6_loop.simps) (auto split: option.splits if_splits)
    show ?thesis
    proof (cases "off < length s \<and> s ! off = CHR ''.''")
      case True
      with "1.prems"(1) False hg off obtain f where "parseIPv4Fields s = Some f" "ip' = ip @ f" "length ip + 4 \<le> 16"
        by (subst (asm) parseIPv6_loop.simps) (auto split: option.splits if_splits)
      then show ?thesis using parseIPv4Fields_length by fastforce
    next
      case dot: False
      let ?ip = "ip @ [of_nat (acc div 256), of_nat acc]"
      have ev: "even (length ?ip)" "length ?ip \<le> 16" using "1.prems"(2) lt by auto
      from "1.prems"(1) False hg off dot
      consider (stop) "ip' = ?ip"
        | (dbl) "drop off s \<noteq> []" "hd (drop off s) = CHR '':''" "length (drop off s) \<noteq> 1"
                "hd (tl (drop off s)) = CHR '':''" "ellipsis = None" "tl (tl (drop off s)) \<noteq> []"
                "parseIPv6_loop (tl (tl (drop off s))) ?ip (Some (length ?ip)) = Some (rest, ip', ellipsis')"
        | (sgl) "drop off s \<noteq> []" "hd (drop off s) = CHR '':''" "length (drop off s) \<noteq> 1"
                "hd (tl (drop off s)) \<noteq> CHR '':''"
                "parseIPv6_loop (tl (drop off s)) ?ip ellipsis = Some (rest, ip', ellipsis')"
        by (subst (asm) parseIPv6_loop.simps) (auto simp: Let_def split: if_splits)
      then show ?thesis
      proof cases
        case stop
        then show ?thesis using ev by simp
      next
        case dbl
        show ?thesis
          by (rule "1.IH"(1) [OF False hg refl off dot refl refl]) (use dbl ev in auto)
      next
        case sgl
        show ?thesis
          by (rule "1.IH"(2) [OF False hg refl off dot refl refl]) (use sgl ev in auto)
      qed
    qed
  qed
qed

lemma parseIPv6_length: "parseIPv6 s = Some a \<Longrightarrow> \<exists>b z. a = Addr6 b z \<and> length b = 16"
proof -
  assume a: "parseIPv6 s = Some a"
  let ?s0 = "takeWhile (\<lambda>c. c \<noteq> CHR ''%'') s"
  let ?lead = "length ?s0 \<ge> 2 \<and> ?s0 ! 0 = CHR '':'' \<and> ?s0 ! 1 = CHR '':''"
  let ?zone = "drop (length ?s0 + 1) s"
  show ?thesis
  proof (cases "?lead \<and> (if ?lead then drop 2 ?s0 else ?s0) = []")
    case True
    with a have "a = Addr6 (replicate 16 0) ?zone"
      by (auto simp: parseIPv6_def Let_def split: if_splits)
    then show ?thesis by simp
  next
    case False
    with a obtain rest ip ellipsis where
      loop: "parseIPv6_loop (if ?lead then drop 2 ?s0 else ?s0) [] (if ?lead then Some 0 else None) = Some (rest, ip, ellipsis)"
      and res: "(length ip < 16 \<and> (\<exists>e. ellipsis = Some e \<and> a = Addr6 (take e ip @ replicate (16 - length ip) 0 @ drop e ip) ?zone))
              \<or> (\<not> length ip < 16 \<and> a = Addr6 ip ?zone)"
      by (auto simp: parseIPv6_def Let_def split: if_splits option.splits)
    from parseIPv6_loop_length [OF loop] have le: "length ip \<le> 16" by simp
    from res show ?thesis
    proof
      assume "length ip < 16 \<and> (\<exists>e. ellipsis = Some e \<and> a = Addr6 (take e ip @ replicate (16 - length ip) 0 @ drop e ip) ?zone)"
      then obtain e where lt: "length ip < 16" and a': "a = Addr6 (take e ip @ replicate (16 - length ip) 0 @ drop e ip) ?zone"
        by blast
      have "length (take e ip @ replicate (16 - length ip) 0 @ drop e ip) = 16"
        using lt by (simp add: min_def)
      with a' show ?thesis by blast
    next
      assume "\<not> length ip < 16 \<and> a = Addr6 ip ?zone"
      with le show ?thesis by auto
    qed
  qed
qed

lemma parseIPv4_length: "parseIPv4 s = Some a \<Longrightarrow> \<exists>b. a = Addr4 b \<and> length b = 4"
  by (auto simp: parseIPv4_def dest: parseIPv4Fields_length)

lemma ParseAddr_scan_length:
  "ParseAddr_scan s cs = Some a \<Longrightarrow>
     (\<exists>b. a = Addr4 b \<and> length b = 4) \<or> (\<exists>b z. a = Addr6 b z \<and> length b = 16)"
  by (induction cs) (auto split: if_splits dest: parseIPv4_length parseIPv6_length)

lemma ParseAddr_length:
  "ParseAddr s = Some a \<Longrightarrow>
     (\<exists>b. a = Addr4 b \<and> length b = 4) \<or> (\<exists>b z. a = Addr6 b z \<and> length b = 16)"
  unfolding ParseAddr_def by (rule ParseAddr_scan_length)

lemma ParseIP_length: "ParseIP s = Some ip \<Longrightarrow> length ip = 16"
  by (auto simp: ParseIP_def As16_def v4InV6Prefix_def split: option.splits if_splits
           dest!: ParseAddr_length)

lemma length_CIDRMask_loop: "length (CIDRMask_loop l n) = l"
  by (induction l arbitrary: n) auto

lemma map2_and_idem: "map2 (AND) (map2 (AND) b m) m = map2 (AND) b (m :: byte list)"
  by (induction b m rule: list_induct2') (auto simp: and.assoc)

lemma map2_and_ff: "length b = k \<Longrightarrow> map2 (AND) b (replicate k (0xff :: byte)) = b"
proof (induction b arbitrary: k)
  case Nil
  then show ?case by simp
next
  case (Cons x xs)
  then obtain k' where k: "k = Suc k'" "length xs = k'" by (cases k) auto
  have ff: "(0xff :: byte) = - 1" by simp
  have "x AND 0xff = x" unfolding ff by simp
  with Cons.IH [OF k(2)] k show ?case by simp
qed

lemma CIDRMask_32_32: "CIDRMask 32 32 = Some (replicate 4 0xff)"
  by code_simp

lemma CIDRMask_128_128: "CIDRMask 128 128 = Some (replicate 16 0xff)"
  by code_simp

lemma to4_prefix: "length p = 4 \<Longrightarrow> IP_To4 (v4InV6Prefix @ p) = Some p"
  by (simp add: IP_To4_def v4InV6Prefix_def isZeros_def)

lemma to4_length: "IP_To4 ip = Some p \<Longrightarrow> length p = 4"
  by (auto simp: IP_To4_def split: if_splits)

lemma parseIPOrCIDR_shape: "parseIPOrCIDR s = Inr n \<Longrightarrow> canonical_shape n"
proof -
  assume p: "parseIPOrCIDR s = Inr n"
  let ?t = "TrimSpace s"
  show ?thesis
  proof (cases "Contains ?t (CHR ''/'')")
    case False
    with p obtain ip where ip: "ParseIP ?t = Some ip"
      by (auto simp: parseIPOrCIDR_def Let_def split: option.splits)
    have l: "length ip = 16" using ip by (rule ParseIP_length)
    show ?thesis
    proof (cases "IP_To4 ip")
      case None
      with p False ip have n: "n = \<lparr>IP = ip, Mask = replicate 16 0xff\<rparr>"
        by (simp add: parseIPOrCIDR_def Let_def CIDRMask_128_128)
      then show ?thesis using l map2_and_ff [of ip 16]
        by (simp add: canonical_shape_def to16_def mask16_def)
    next
      case (Some p4)
      with p False ip have n: "n = \<lparr>IP = ip, Mask = replicate 4 0xff\<rparr>"
        by (simp add: parseIPOrCIDR_def Let_def CIDRMask_32_32)
      have "replicate 12 (0xff :: byte) @ replicate 4 0xff = replicate 16 0xff"
        by (simp flip: replicate_add)
      then show ?thesis using Some l n map2_and_ff [of ip 16]
        by (simp add: canonical_shape_def to16_def mask16_def)
    qed
  next
    case True
    with p have c: "ParseCIDR ?t = Some n"
      by (auto simp: parseIPOrCIDR_def Let_def split: option.splits)
    let ?addr = "takeWhile (\<lambda>c. c \<noteq> CHR ''/'') ?t"
    have "\<exists>ipAddr k. ParseAddr ?addr = Some ipAddr \<and> k \<le> BitLen ipAddr \<and>
            n = \<lparr>IP = (case IP_Mask (As16 ipAddr) (case CIDRMask k (BitLen ipAddr) of Some m \<Rightarrow> m | None \<Rightarrow> []) of Some p \<Rightarrow> p | None \<Rightarrow> []),
                   Mask = (case CIDRMask k (BitLen ipAddr) of Some m \<Rightarrow> m | None \<Rightarrow> [])\<rparr>"
    proof (cases "ParseAddr ?addr")
      case None
      with c show ?thesis by (simp add: ParseCIDR_def Let_def split: if_splits)
    next
      case (Some ipAddr)
      show ?thesis
      proof (cases "dtoi (drop (length ?addr + 1) ?t)")
        case None
        with c Some show ?thesis by (simp add: ParseCIDR_def Let_def split: if_splits)
      next
        case (Some ki)
        obtain k i where ki: "ki = (k, i)" by (cases ki)
        with c \<open>ParseAddr ?addr = Some ipAddr\<close> Some show ?thesis
          by (auto simp: ParseCIDR_def Let_def split: if_splits intro!: exI [of _ k])
      qed
    qed
    then obtain ipAddr k where a: "ParseAddr ?addr = Some ipAddr" and k: "k \<le> BitLen ipAddr"
      and n: "n = \<lparr>IP = (case IP_Mask (As16 ipAddr) (case CIDRMask k (BitLen ipAddr) of Some m \<Rightarrow> m | None \<Rightarrow> []) of Some p \<Rightarrow> p | None \<Rightarrow> []),
                   Mask = (case CIDRMask k (BitLen ipAddr) of Some m \<Rightarrow> m | None \<Rightarrow> [])\<rparr>"
      by blast
    from ParseAddr_length [OF a] show ?thesis
    proof
      assume "\<exists>b. ipAddr = Addr4 b \<and> length b = 4"
      then obtain b where b: "ipAddr = Addr4 b" "length b = 4" by blast
      let ?m = "CIDRMask_loop 4 k"
      have m: "CIDRMask k (BitLen ipAddr) = Some ?m" using b k by (simp add: CIDRMask_def BitLen_def)
      have ipm: "IP_Mask (As16 ipAddr) ?m = Some (map2 (AND) b ?m)"
        using b by (simp add: IP_Mask_def As16_def length_CIDRMask_loop Let_def)
           (simp add: v4InV6Prefix_def)
      have n': "n = \<lparr>IP = map2 (AND) b ?m, Mask = ?m\<rparr>" using n m ipm by simp
      have lp: "length v4InV6Prefix = 12" by (simp add: v4InV6Prefix_def)
      have "map2 (AND) (v4InV6Prefix @ map2 (AND) b ?m) (replicate 12 0xff @ ?m)
              = map2 (AND) v4InV6Prefix (replicate 12 0xff) @ map2 (AND) (map2 (AND) b ?m) ?m"
        by (simp add: lp)
      also have "\<dots> = v4InV6Prefix @ map2 (AND) b ?m"
        by (simp only: map2_and_ff [OF lp] map2_and_idem)
      finally show ?thesis using b n'
        by (simp add: canonical_shape_def to16_def mask16_def length_CIDRMask_loop)
    next
      assume "\<exists>b z. ipAddr = Addr6 b z \<and> length b = 16"
      then obtain b z where b: "ipAddr = Addr6 b z" "length b = 16" by blast
      let ?m = "CIDRMask_loop 16 k"
      have m: "CIDRMask k (BitLen ipAddr) = Some ?m" using b k by (simp add: CIDRMask_def BitLen_def)
      have ipm: "IP_Mask (As16 ipAddr) ?m = Some (map2 (AND) b ?m)"
        using b by (simp add: IP_Mask_def As16_def length_CIDRMask_loop Let_def)
      have n': "n = \<lparr>IP = map2 (AND) b ?m, Mask = ?m\<rparr>" using n m ipm by simp
      show ?thesis using b n'
        by (simp add: canonical_shape_def to16_def mask16_def length_CIDRMask_loop map2_and_idem)
    qed
  qed
qed

lemma IPNet_String_16:
  assumes "canonical_shape n"
  shows "IPNet_String n = IPNet_String \<lparr>IP = to16 (IP n), Mask = mask16 (Mask n)\<rparr>"
proof -
  have "networkNumberAndMask n = networkNumberAndMask \<lparr>IP = to16 (IP n), Mask = mask16 (Mask n)\<rparr>"
  proof -
    from assms consider
      (v4) "length (IP n) = 4" "length (Mask n) = 4"
      | (v6) "length (IP n) = 16" "length (Mask n) = 16"
      | (mapped) "length (IP n) = 16" "length (Mask n) = 4" "IP_To4 (IP n) \<noteq> None"
      by (auto simp: canonical_shape_def)
    then show ?thesis
    proof cases
      case v4
      then show ?thesis
        by (simp add: networkNumberAndMask_def to16_def mask16_def to4_prefix Let_def)
           (simp add: IP_To4_def)
    next
      case v6
      then show ?thesis by (cases n) (simp add: to16_def mask16_def)
    next
      case mapped
      then obtain p where p: "IP_To4 (IP n) = Some p" by auto
      with mapped show ?thesis
        using to4_length [OF p]
        by (simp add: networkNumberAndMask_def to16_def mask16_def Let_def)
    qed
  qed
  then show ?thesis by (simp add: IPNet_String_def)
qed

lemma same_network_canonical:
  assumes s1: "canonical_shape n1" and s2: "canonical_shape n2" and same: "same_network n1 n2"
  shows "IPNet_String n1 = IPNet_String n2"
proof -
  have l: "length (to16 (IP n)) = 16 \<and> length (mask16 (Mask n)) = 16" if "canonical_shape n" for n
    using that by (auto simp: canonical_shape_def to16_def mask16_def v4InV6Prefix_def)
  have m: "map2 (AND) (to16 (IP n)) (mask16 (Mask n)) = to16 (IP n)" if "canonical_shape n" for n
    using that by (simp add: canonical_shape_def)
  have "to16 (IP n1) = to16 (IP n2) \<and> mask16 (Mask n1) = mask16 (Mask n2)"
  proof (rule masks_equal [where l = 16])
    fix a :: "byte list"
    assume a: "length a = 16"
    from same have "covers n1 a = covers n2 a" by (simp add: same_network_def)
    then show "(map2 (AND) a (mask16 (Mask n1)) = to16 (IP n1)) = (map2 (AND) a (mask16 (Mask n2)) = to16 (IP n2))"
      by (simp add: covers_def a m [OF s1] m [OF s2])
  qed (use l [OF s1] l [OF s2] m [OF s1] m [OF s2] in simp_all)
  then show ?thesis
    using IPNet_String_16 [OF s1] IPNet_String_16 [OF s2] by simp
qed

lemma simpleMaskLength_ff4: "simpleMaskLength (replicate 4 0xff) = Some 32"
  by code_simp

lemma simpleMaskLength_ff16: "simpleMaskLength (replicate 16 0xff) = Some 128"
  by code_simp

lemma uitoa_32: "uitoa 32 = ''32''"
  by code_simp

lemma uitoa_128: "uitoa 128 = ''128''"
  by code_simp

lemma bare_v4_string:
  assumes "\<not> Contains (TrimSpace s) (CHR ''/'')" and "ParseIP (TrimSpace s) = Some ip" and "IP_To4 ip = Some p"
  shows "map_sum id IPNet_String (parseIPOrCIDR s) = Inr (string4 p @ ''/32'')"
proof -
  have n: "parseIPOrCIDR s = Inr \<lparr>IP = ip, Mask = replicate 4 0xff\<rparr>"
    using assms by (simp add: parseIPOrCIDR_def Let_def CIDRMask_32_32)
  have l: "length p = 4" using assms(3) by (rule to4_length)
  have "networkNumberAndMask \<lparr>IP = ip, Mask = replicate 4 0xff\<rparr> = Some (p, replicate 4 0xff)"
    using assms(3) l by (simp add: networkNumberAndMask_def Let_def)
  moreover have "IP_String p = string4 p"
    using l by (simp add: IP_String_def IP_To4_def)
  ultimately have "IPNet_String \<lparr>IP = ip, Mask = replicate 4 0xff\<rparr> = string4 p @ ''/32''"
    by (simp add: IPNet_String_def simpleMaskLength_ff4 uitoa_32)
  with n show ?thesis by simp
qed

lemma bare_v6_string:
  assumes "\<not> Contains (TrimSpace s) (CHR ''/'')" and "ParseIP (TrimSpace s) = Some ip" and "IP_To4 ip = None"
  shows "map_sum id IPNet_String (parseIPOrCIDR s) = Inr (string6 ip @ ''/128'')"
proof -
  have n: "parseIPOrCIDR s = Inr \<lparr>IP = ip, Mask = replicate 16 0xff\<rparr>"
    using assms by (simp add: parseIPOrCIDR_def Let_def CIDRMask_128_128)
  have l: "length ip = 16" using assms(2) by (rule ParseIP_length)
  have "networkNumberAndMask \<lparr>IP = ip, Mask = replicate 16 0xff\<rparr> = Some (ip, replicate 16 0xff)"
    using assms(3) l by (simp add: networkNumberAndMask_def Let_def)
  moreover have "IP_String ip = string6 ip"
    using l assms(3) by (simp add: IP_String_def)
  ultimately have "IPNet_String \<lparr>IP = ip, Mask = replicate 16 0xff\<rparr> = string6 ip @ ''/128''"
    by (simp add: IPNet_String_def simpleMaskLength_ff16 uitoa_128)
  with n show ?thesis by simp
qed

lemma parse_bare_v4:
  "parseIPOrCIDR ''203.0.113.5'' =
     Inr \<lparr>IP = [0, 0, 0, 0, 0, 0, 0, 0, 0, 0, 255, 255, 203, 0, 113, 5], Mask = [255, 255, 255, 255]\<rparr>"
  by code_simp

lemma parse_mapped_cidr:
  "parseIPOrCIDR ''::ffff:203.0.113.5/128'' =
     Inr \<lparr>IP = [0, 0, 0, 0, 0, 0, 0, 0, 0, 0, 255, 255, 203, 0, 113, 5],
          Mask = [255, 255, 255, 255, 255, 255, 255, 255, 255, 255, 255, 255, 255, 255, 255, 255]\<rparr>"
  by code_simp

lemma string_bare_v4: "map_sum id IPNet_String (parseIPOrCIDR ''203.0.113.5'') = Inr ''203.0.113.5/32''"
  by code_simp

lemma string_bare_v6: "map_sum id IPNet_String (parseIPOrCIDR ''2001:db8::1'') = Inr ''2001:db8::1/128''"
  by code_simp

lemma bare_v4_facts:
  "\<not> Contains (TrimSpace ''203.0.113.5'') (CHR ''/'')"
  "ParseIP (TrimSpace ''203.0.113.5'') = Some [0, 0, 0, 0, 0, 0, 0, 0, 0, 0, 255, 255, 203, 0, 113, 5]"
  "IP_To4 [0, 0, 0, 0, 0, 0, 0, 0, 0, 0, 255, 255, 203, 0, 113, 5] = Some [203, 0, 113, 5]"
  "string4 [203, 0, 113, 5] = ''203.0.113.5''"
  by code_simp+

lemma bare_v6_facts:
  "\<not> Contains (TrimSpace ''2001:DB8:0:0:0:0:0:1'') (CHR ''/'')"
  "ParseIP (TrimSpace ''2001:DB8:0:0:0:0:0:1'') = Some [32, 1, 13, 184, 0, 0, 0, 0, 0, 0, 0, 0, 0, 0, 0, 1]"
  "IP_To4 [32, 1, 13, 184, 0, 0, 0, 0, 0, 0, 0, 0, 0, 0, 0, 1] = None"
  "string6 [32, 1, 13, 184, 0, 0, 0, 0, 0, 0, 0, 0, 0, 0, 0, 1] = ''2001:db8::1''"
  by code_simp+

section \<open>The claims\<close>

text \<open>
  C1: a remote-client error during reconciliation aborts the cycle; in particular, when the
  address-group cannot be read for a reason other than its absence the cycle fails, and only
  a not-found result leads to creating the group. \<open>Run\<close> does not do this: it takes every error
  of \<open>GetFirewallGroup\<close> for absence. Below, the controller answers the read with status 500 and
  the creation with status 201: \<open>GetFirewallGroup\<close> returns the status error, and the cycle
  creates the group, returns success and advances \<open>lastHash\<close>.
\<close>

theorem read_failure_leads_to_create:
  "err (Run init_registry web_A error_then_created example_syncer) = None \<and>
   calls (Run init_registry web_A error_then_created example_syncer)
     = [GetGroup ''uts-block-list'', CreateGroup ''uts-block-list'' [''10.0.0.0/8'', ''192.168.1.1/32'']] \<and>
   fst (GetFirewallGroup error_then_created example_client ''uts-block-list'') = Inl (UnexpectedStatusCode 500) \<and>
   lastHash (syncer (Run init_registry web_A error_then_created example_syncer)) \<noteq> lastHash example_syncer"
  by (simp add: Run_def fetchAllFeeds_def Let_def example_simps error_then_created_def fetch_web_A members_A)

text \<open>
  C2: \<open>fetchAllFeeds\<close> never returns an error. When every enabled feed fails, it
  returns the empty sequence, and a cycle whose \<open>lastHash\<close> differs from the fingerprint of the
  empty set calls the remote client for the group and then creates or updates it with the empty
  member list; the cycle fails only if the remote client does.
\<close>

theorem fetch_stage_never_fails:
  "(\<exists>nets. fetchAllFeeds reg w s = Inr nets) \<and>
   (list_all (feed_fails reg w) (GetEnabled (Feeds (config s))) \<longrightarrow>
      fetchAllFeeds reg w s = Inr [] \<and>
      (calculateHash (Normalize []) \<noteq> lastHash s \<longrightarrow>
         (\<exists>c. calls (Run reg w net s) = [GetGroup (GroupName (config s)), c] \<and>
              (c = CreateGroup (GroupName (config s)) [] \<or> (\<exists>gid. c = UpdateGroup gid []))) \<and>
         (err (Run reg w net s) = None \<or>
          (\<exists>e. err (Run reg w net s) = Some (FailedToCreateFirewallGroup e)) \<or>
          (\<exists>e. err (Run reg w net s) = Some (FailedToUpdateFirewallGroup e)))))"
proof -
  have total: "\<exists>nets. fetchAllFeeds reg w s = Inr nets"
    by (simp add: fetchAllFeeds_def)
  have empty: "fetchAllFeeds reg w s = Inr []"
    and push: "calculateHash (Normalize []) \<noteq> lastHash s \<Longrightarrow>
         (\<exists>c. calls (Run reg w net s) = [GetGroup (GroupName (config s)), c] \<and>
              (c = CreateGroup (GroupName (config s)) [] \<or> (\<exists>gid. c = UpdateGroup gid [])))"
    if fail: "list_all (feed_fails reg w) (GetEnabled (Feeds (config s)))"
  proof -
    have nets: "fetchAllFeeds_loop reg w (GetEnabled (Feeds (config s))) [] = []"
      using fail by (rule fetchAllFeeds_loop_all_fail)
    show "fetchAllFeeds reg w s = Inr []"
      by (simp add: fetchAllFeeds_def nets)
    assume "calculateHash (Normalize []) \<noteq> lastHash s"
    then have "calculateHash (Normalize (fetchAllFeeds_loop reg w (GetEnabled (Feeds (config s))) [])) \<noteq> lastHash s"
      by (simp add: nets)
    from Run_changed [OF this, of net]
    show "\<exists>c. calls (Run reg w net s) = [GetGroup (GroupName (config s)), c] \<and>
              (c = CreateGroup (GroupName (config s)) [] \<or> (\<exists>gid. c = UpdateGroup gid []))"
      by (auto simp: nets Normalize_Nil ToStrings_def)
  qed
  from total empty push Run_err_cases [of reg w net s] show ?thesis by blast
qed

theorem fetch_stage_never_fails_witness:
  "list_all (feed_fails init_registry web_down) (GetEnabled (Feeds (config example_syncer))) \<and>
   calculateHash (Normalize []) \<noteq> lastHash example_syncer \<and>
   fetchAllFeeds init_registry web_down example_syncer = Inr [] \<and>
   calls (Run init_registry web_down found_then_ok example_syncer)
     = [GetGroup ''uts-block-list'', UpdateGroup ''65a1'' []] \<and>
   err (Run init_registry web_down found_then_ok example_syncer) = None"
proof -
  have a: "list_all (feed_fails init_registry web_down) (GetEnabled (Feeds (config example_syncer)))"
    by (simp only: enabled_example feeds_fail_down)
  have b: "calculateHash (Normalize []) \<noteq> lastHash example_syncer"
    by (simp add: example_simps)
  have r: "Run init_registry web_down found_then_ok example_syncer =
           \<lparr>err = None,
            syncer = example_syncer\<lparr>unifiClient := example_client,
                       lastHash := calculateHash (Normalize []),
                       healthRecorder := Some (RecordSync example_recorder)\<rparr>,
            calls = [GetGroup ''uts-block-list'', UpdateGroup ''65a1'' []],
            remaining = []\<rparr>"
    by (simp add: Run_def fetchAllFeeds_def Let_def example_simps found_then_ok_def fetch_web_down)
       (simp add: example_group_def Normalize_Nil ToStrings_def)
  from fetch_stage_never_fails [of init_registry web_down example_syncer found_then_ok] a b
  show ?thesis by (simp add: r)
qed

text \<open>
  C3: every cycle that returns success with a health recorder set calls \<open>RecordSync\<close>, the
  cycle that ends at the comparison of the fingerprints included. \<open>Run\<close> does not do this: the
  return at the comparison comes before the call. Below, after a first successful cycle the
  recorder has counted one sync, and after a second successful cycle on the same feeds it has
  still counted one.
\<close>

theorem unchanged_cycle_skips_RecordSync:
  "err (Run init_registry web_A found_then_ok example_syncer) = None \<and>
   healthRecorder (syncer (Run init_registry web_A found_then_ok example_syncer))
     = Some \<lparr>ready = True, syncCount = 1, errorCount = 0\<rparr> \<and>
   err (Run init_registry web_A found_then_ok (syncer (Run init_registry web_A found_then_ok example_syncer))) = None \<and>
   healthRecorder (syncer (Run init_registry web_A found_then_ok (syncer (Run init_registry web_A found_then_ok example_syncer))))
     = Some \<lparr>ready = True, syncCount = 1, errorCount = 0\<rparr>"
proof -
  have r: "Run init_registry web_A found_then_ok example_syncer =
           \<lparr>err = None,
            syncer = example_syncer\<lparr>unifiClient := example_client,
                       lastHash := calculateHash (Normalize (fetchAllFeeds_loop init_registry web_A [unknown_feed, example_feed] [])),
                       healthRecorder := Some (RecordSync example_recorder)\<rparr>,
            calls = [GetGroup ''uts-block-list'', UpdateGroup ''65a1'' [''10.0.0.0/8'', ''192.168.1.1/32'']],
            remaining = []\<rparr>"
    by (simp add: Run_def fetchAllFeeds_def Let_def example_simps found_then_ok_def)
       (simp add: example_group_def fetch_web_A members_A)
  have r2: "Run init_registry web_A found_then_ok (syncer (Run init_registry web_A found_then_ok example_syncer))
             = \<lparr>err = None, syncer = syncer (Run init_registry web_A found_then_ok example_syncer),
                calls = [], remaining = found_then_ok\<rparr>"
    by (rule Run_unchanged) (simp add: r example_simps)
  show ?thesis
    by (simp add: r2) (simp add: r RecordSync_def example_recorder_def)
qed

text \<open>
  C4: when a cycle returns an error, \<open>lastHash\<close> after the cycle is what it was before, and
  the next cycle on the same feeds calls the remote client again, for the group and then to create
  or update it with the same members.
\<close>

theorem failed_cycle_keeps_lastHash:
  "err (Run reg w net s) = Some e \<Longrightarrow>
     lastHash (syncer (Run reg w net s)) = lastHash s \<and>
     (\<exists>c. calls (Run reg w net' (syncer (Run reg w net s))) = [GetGroup (GroupName (config s)), c] \<and>
          (c = CreateGroup (GroupName (config s)) (ToStrings (Normalize (fetchAllFeeds_loop reg w (GetEnabled (Feeds (config s))) [])))
           \<or> (\<exists>gid. c = UpdateGroup gid (ToStrings (Normalize (fetchAllFeeds_loop reg w (GetEnabled (Feeds (config s))) []))))))"
proof -
  let ?nets = "fetchAllFeeds_loop reg w (GetEnabled (Feeds (config s))) []"
  let ?r = "Run reg w net s"
  assume e: "err ?r = Some e"
  have ch: "calculateHash (Normalize ?nets) \<noteq> lastHash s"
    using e Run_unchanged [of reg w s net] by auto
  from Run_changed [OF ch, of net] e
  obtain cl where s': "syncer ?r = s\<lparr>unifiClient := cl\<rparr>" by auto
  then have keep: "lastHash (syncer ?r) = lastHash s" "config (syncer ?r) = config s" by simp_all
  have "calculateHash (Normalize (fetchAllFeeds_loop reg w (GetEnabled (Feeds (config (syncer ?r)))) []))
          \<noteq> lastHash (syncer ?r)"
    using ch keep by simp
  from Run_changed [OF this, of net'] keep show ?thesis by auto
qed

theorem failed_cycle_keeps_lastHash_witness:
  "err (Run init_registry web_A [] example_syncer) = Some (FailedToCreateFirewallGroup RequestFailed) \<and>
   lastHash (syncer (Run init_registry web_A [] example_syncer)) = [] \<and>
   calls (Run init_registry web_A found_then_ok (syncer (Run init_registry web_A [] example_syncer)))
     = [GetGroup ''uts-block-list'', UpdateGroup ''65a1'' [''10.0.0.0/8'', ''192.168.1.1/32'']]"
proof -
  have r: "Run init_registry web_A [] example_syncer =
           \<lparr>err = Some (FailedToCreateFirewallGroup RequestFailed),
            syncer = example_syncer\<lparr>unifiClient := example_client\<rparr>,
            calls = [GetGroup ''uts-block-list'', CreateGroup ''uts-block-list'' [''10.0.0.0/8'', ''192.168.1.1/32'']],
            remaining = []\<rparr>"
    by (simp add: Run_def fetchAllFeeds_def Let_def example_simps fetch_web_A members_A)
  have e: "err (Run init_registry web_A [] example_syncer) = Some (FailedToCreateFirewallGroup RequestFailed)"
    by (simp add: r)
  have c: "calls (Run init_registry web_A found_then_ok (example_syncer\<lparr>unifiClient := example_client\<rparr>))
     = [GetGroup ''uts-block-list'', UpdateGroup ''65a1'' [''10.0.0.0/8'', ''192.168.1.1/32'']]"
    by (simp add: Run_def fetchAllFeeds_def Let_def example_simps fetch_web_A members_A found_then_ok_def)
       (simp add: example_group_def)
  from failed_cycle_keeps_lastHash [OF e, of found_then_ok] show ?thesis
    by (simp add: r c example_simps)
qed

text \<open>
  C5: of two cycles in a row on unchanged feeds, the second makes no call to the remote client
  and returns success. Stated for all pairs of cycles this is false: when the first cycle failed
  at the remote client, the second one calls the remote client again.
\<close>

theorem unchanged_after_failure_counterexample:
  "calls (Run init_registry web_A [] (syncer (Run init_registry web_A [] example_syncer)))
     = [GetGroup ''uts-block-list'', CreateGroup ''uts-block-list'' [''10.0.0.0/8'', ''192.168.1.1/32'']] \<and>
   err (Run init_registry web_A [] (syncer (Run init_registry web_A [] example_syncer)))
     = Some (FailedToCreateFirewallGroup RequestFailed)"
proof -
  have r: "Run init_registry web_A [] example_syncer =
           \<lparr>err = Some (FailedToCreateFirewallGroup RequestFailed),
            syncer = example_syncer\<lparr>unifiClient := example_client\<rparr>,
            calls = [GetGroup ''uts-block-list'', CreateGroup ''uts-block-list'' [''10.0.0.0/8'', ''192.168.1.1/32'']],
            remaining = []\<rparr>"
    by (simp add: Run_def fetchAllFeeds_def Let_def example_simps fetch_web_A members_A)
  show ?thesis
    by (simp add: r) (simp add: Run_def fetchAllFeeds_def Let_def example_simps fetch_web_A members_A)
qed

text \<open>
  C5, amended: when the first of two cycles in a row on unchanged feeds returned success, the
  second makes no call to the remote client and returns success, leaving the orchestrator as it was.
\<close>

theorem unchanged_feeds_no_remote_calls:
  "err (Run reg w net1 s) = None \<Longrightarrow>
     calls (Run reg w net2 (syncer (Run reg w net1 s))) = [] \<and>
     err (Run reg w net2 (syncer (Run reg w net1 s))) = None \<and>
     syncer (Run reg w net2 (syncer (Run reg w net1 s))) = syncer (Run reg w net1 s)"
proof -
  let ?nets = "fetchAllFeeds_loop reg w (GetEnabled (Feeds (config s))) []"
  let ?r = "Run reg w net1 s"
  assume ok: "err ?r = None"
  have "config (syncer ?r) = config s \<and> lastHash (syncer ?r) = calculateHash (Normalize ?nets)"
  proof (cases "calculateHash (Normalize ?nets) = lastHash s")
    case True
    then show ?thesis by (simp add: Run_unchanged)
  next
    case False
    from Run_changed [OF False, of net1] ok show ?thesis by auto
  qed
  then have "calculateHash (Normalize (fetchAllFeeds_loop reg w (GetEnabled (Feeds (config (syncer ?r)))) []))
               = lastHash (syncer ?r)" by simp
  then show ?thesis by (simp add: Run_unchanged)
qed

theorem unchanged_feeds_no_remote_calls_witness:
  "err (Run init_registry web_A found_then_ok example_syncer) = None \<and>
   calls (Run init_registry web_A found_then_ok example_syncer)
     = [GetGroup ''uts-block-list'', UpdateGroup ''65a1'' [''10.0.0.0/8'', ''192.168.1.1/32'']] \<and>
   calls (Run init_registry web_A found_then_ok (syncer (Run init_registry web_A found_then_ok example_syncer))) = [] \<and>
   err (Run init_registry web_A found_then_ok (syncer (Run init_registry web_A found_then_ok example_syncer))) = None"
proof -
  have r: "Run init_registry web_A found_then_ok example_syncer =
           \<lparr>err = None,
            syncer = example_syncer\<lparr>unifiClient := example_client,
                       lastHash := calculateHash (Normalize (fetchAllFeeds_loop init_registry web_A [unknown_feed, example_feed] [])),
                       healthRecorder := Some (RecordSync example_recorder)\<rparr>,
            calls = [GetGroup ''uts-block-list'', UpdateGroup ''65a1'' [''10.0.0.0/8'', ''192.168.1.1/32'']],
            remaining = []\<rparr>"
    by (simp add: Run_def fetchAllFeeds_def Let_def example_simps found_then_ok_def)
       (simp add: example_group_def fetch_web_A members_A)
  have e: "err (Run init_registry web_A found_then_ok example_syncer) = None" by (simp add: r)
  from unchanged_feeds_no_remote_calls [OF e, of found_then_ok] e show ?thesis
    by (simp add: r)
qed

text \<open>
  C6: when the feeds changed between two cycles, the second calls exactly one of create and
  update, with the new canonical strings as members. Stated for all pairs of cycles this is
  false: \<open>lastHash\<close> is the fingerprint of the last set that was reconciled, not of the set of
  the previous cycle. After a successful cycle, a failed cycle on other feeds and a return to
  the first feeds, the third cycle makes no remote call although the feeds changed.
\<close>

theorem change_after_failure_counterexample:
  "err first_cycle = None \<and>
   ToStrings (Normalize (fetchAllFeeds_loop init_registry web_B (GetEnabled (Feeds (config (syncer first_cycle)))) []))
     = [''203.0.113.5/32''] \<and>
   ToStrings (Normalize (fetchAllFeeds_loop init_registry web_A (GetEnabled (Feeds (config (syncer failed_cycle)))) []))
     = [''10.0.0.0/8'', ''192.168.1.1/32''] \<and>
   calls third_cycle = []"
proof -
  let ?hA = "calculateHash (Normalize (fetchAllFeeds_loop init_registry web_A [unknown_feed, example_feed] []))"
  have s1: "config (syncer first_cycle) = config example_syncer" "lastHash (syncer first_cycle) = ?hA"
    by (simp_all add: first_cycle_eq)
  have s2: "config (syncer failed_cycle) = config example_syncer \<and> lastHash (syncer failed_cycle) = ?hA"
  proof (cases "calculateHash (Normalize (fetchAllFeeds_loop init_registry web_B (GetEnabled (Feeds (config (syncer first_cycle)))) []))
                 = lastHash (syncer first_cycle)")
    case True
    then have "failed_cycle = \<lparr>err = None, syncer = syncer first_cycle, calls = [], remaining = []\<rparr>"
      unfolding failed_cycle_def by (rule Run_unchanged)
    then have "syncer failed_cycle = syncer first_cycle"
      by (rule arg_cong [where f = syncer, THEN trans]) simp
    then show ?thesis by (simp only: s1 simp_thms)
  next
    case False
    then have "syncer failed_cycle = (syncer first_cycle)\<lparr>unifiClient := example_client\<rparr>"
      unfolding failed_cycle_def
      by (simp add: Run_def fetchAllFeeds_def Let_def first_cycle_eq example_simps)
    then show ?thesis by (simp add: s1)
  qed
  have "calculateHash (Normalize (fetchAllFeeds_loop init_registry web_A (GetEnabled (Feeds (config (syncer failed_cycle)))) []))
          = lastHash (syncer failed_cycle)"
    by (simp add: s2 enabled_example)
  then have "third_cycle = \<lparr>err = None, syncer = syncer failed_cycle, calls = [], remaining = found_then_ok\<rparr>"
    unfolding third_cycle_def by (rule Run_unchanged)
  then have c3: "calls third_cycle = []"
    by (rule arg_cong [where f = calls, THEN trans]) simp
  have e1: "err first_cycle = None"
    by (simp add: first_cycle_eq)
  show ?thesis
    by (simp add: c3 e1 s1 s2 enabled_example fetch_web_A fetch_web_B members_A members_B)
qed

text \<open>
  C6, amended: when the first of two cycles in a row returned success and the fingerprint of
  the feed content at the second differs from that of the feed content at the first, the second
  calls the remote client for the group and then exactly one of create and update, with the
  canonical strings of the new normalized set as members.
\<close>

theorem change_after_success_one_reconcile_call:
  "err (Run reg w1 net1 s) = None \<Longrightarrow>
   calculateHash (Normalize (fetchAllFeeds_loop reg w2 (GetEnabled (Feeds (config s))) []))
     \<noteq> calculateHash (Normalize (fetchAllFeeds_loop reg w1 (GetEnabled (Feeds (config s))) [])) \<Longrightarrow>
   \<exists>c. calls (Run reg w2 net2 (syncer (Run reg w1 net1 s))) = [GetGroup (GroupName (config s)), c] \<and>
       (c = CreateGroup (GroupName (config s)) (ToStrings (Normalize (fetchAllFeeds_loop reg w2 (GetEnabled (Feeds (config s))) [])))
        \<or> (\<exists>gid. c = UpdateGroup gid (ToStrings (Normalize (fetchAllFeeds_loop reg w2 (GetEnabled (Feeds (config s))) [])))))"
proof -
  let ?n1 = "fetchAllFeeds_loop reg w1 (GetEnabled (Feeds (config s))) []"
  let ?n2 = "fetchAllFeeds_loop reg w2 (GetEnabled (Feeds (config s))) []"
  let ?r = "Run reg w1 net1 s"
  assume ok: "err ?r = None"
    and diff: "calculateHash (Normalize ?n2) \<noteq> calculateHash (Normalize ?n1)"
  have st: "config (syncer ?r) = config s \<and> lastHash (syncer ?r) = calculateHash (Normalize ?n1)"
  proof (cases "calculateHash (Normalize ?n1) = lastHash s")
    case True
    then show ?thesis by (simp add: Run_unchanged)
  next
    case False
    from Run_changed [OF False, of net1] ok show ?thesis by auto
  qed
  with diff have
    "calculateHash (Normalize (fetchAllFeeds_loop reg w2 (GetEnabled (Feeds (config (syncer ?r)))) []))
       \<noteq> lastHash (syncer ?r)"
    by simp
  from Run_changed [OF this, of net2] show ?thesis
    unfolding conjunct1 [OF st] by blast
qed

theorem change_after_success_one_reconcile_call_witness:
  "err (Run init_registry web_A found_then_ok example_syncer) = None \<and>
   calls (Run init_registry web_A found_then_ok example_syncer)
     = [GetGroup ''uts-block-list'', UpdateGroup ''65a1'' [''10.0.0.0/8'', ''192.168.1.1/32'']] \<and>
   calculateHash (Normalize (fetchAllFeeds_loop init_registry web_A (GetEnabled (Feeds (config example_syncer))) []))
     = ''edd356649fa1e98d13b86636cd9ac38f529c43b5393d51207785d82a8b7a3c01'' \<and>
   calculateHash (Normalize (fetchAllFeeds_loop init_registry web_B (GetEnabled (Feeds (config example_syncer))) []))
     = ''0637798018cf4c023d33127f92b6da601c04beba20e7e5fb2114591bdf9231db'' \<and>
   calls (Run init_registry web_B found_then_ok (syncer (Run init_registry web_A found_then_ok example_syncer)))
     = [GetGroup ''uts-block-list'', UpdateGroup ''65a1'' [''203.0.113.5/32'']]"
proof -
  note r = first_cycle_eq [unfolded first_cycle_def]
  have e: "err (Run init_registry web_A found_then_ok example_syncer) = None"
    by (simp add: r)
  have d: "calculateHash (Normalize (fetchAllFeeds_loop init_registry web_B (GetEnabled (Feeds (config example_syncer))) []))
             \<noteq> calculateHash (Normalize (fetchAllFeeds_loop init_registry web_A (GetEnabled (Feeds (config example_syncer))) []))"
    by (simp add: enabled_example fingerprint_A fingerprint_B)
  have c: "calls (Run init_registry web_B found_then_ok
             (example_syncer\<lparr>unifiClient := example_client,
                lastHash := ''edd356649fa1e98d13b86636cd9ac38f529c43b5393d51207785d82a8b7a3c01'',
                healthRecorder := Some (RecordSync example_recorder)\<rparr>))
     = [GetGroup ''uts-block-list'', UpdateGroup ''65a1'' [''203.0.113.5/32'']]"
    by (simp add: Run_def fetchAllFeeds_def Let_def example_simps fingerprint_B [unfolded fetch_web_B]
          fetch_web_B members_B found_then_ok_def)
       (simp add: example_group_def)
  from change_after_success_one_reconcile_call [OF e d, of found_then_ok] e show ?thesis
    by (simp add: r c enabled_example fingerprint_A fingerprint_B)
qed

text \<open>
  C7: two strings that \<open>parseIPOrCIDR\<close> accepts and whose entries denote the same network
  have the same canonical string. A bare IPv4 address gets the suffix \<open>/32\<close> and a bare IPv6
  address the suffix \<open>/128\<close>. Stated for every bare IPv6 address the last part is false: an
  IPv4-mapped address in IPv6 notation is accepted, \<open>To4\<close> succeeds on it, and it gets the
  canonical string of the IPv4 address, with \<open>/32\<close>.
\<close>

theorem mapped_address_counterexample:
  "ParseAddr ''::ffff:203.0.113.5'' = Some (Addr6 [0, 0, 0, 0, 0, 0, 0, 0, 0, 0, 255, 255, 203, 0, 113, 5] []) \<and>
   map_sum id IPNet_String (parseIPOrCIDR ''::ffff:203.0.113.5'') = Inr ''203.0.113.5/32'' \<and>
   ParseAddr ''::ffff:cb00:7105'' = Some (Addr6 [0, 0, 0, 0, 0, 0, 0, 0, 0, 0, 255, 255, 203, 0, 113, 5] []) \<and>
   map_sum id IPNet_String (parseIPOrCIDR ''::ffff:cb00:7105'') = Inr ''203.0.113.5/32''"
  by code_simp

text \<open>
  C7, amended: two strings that \<open>parseIPOrCIDR\<close> accepts and whose entries denote the same
  network have the same canonical string. A bare address on which \<open>To4\<close> succeeds, that is an
  IPv4 address or an IPv4-mapped address in IPv6 notation, gets the dotted form with the suffix
  \<open>/32\<close>; every other bare IPv6 address gets the suffix \<open>/128\<close>; \<open>203.0.113.5\<close> becomes
  \<open>203.0.113.5/32\<close>.
\<close>

theorem canonical_string_unique:
  "(parseIPOrCIDR s1 = Inr n1 \<and> parseIPOrCIDR s2 = Inr n2 \<and> same_network n1 n2 \<longrightarrow>
      IPNet_String n1 = IPNet_String n2) \<and>
   (\<not> Contains (TrimSpace s4) (CHR ''/'') \<and> ParseIP (TrimSpace s4) = Some ip4 \<and> IP_To4 ip4 = Some p4 \<longrightarrow>
      map_sum id IPNet_String (parseIPOrCIDR s4) = Inr (string4 p4 @ ''/32'')) \<and>
   (\<not> Contains (TrimSpace s6) (CHR ''/'') \<and> ParseIP (TrimSpace s6) = Some ip6 \<and> IP_To4 ip6 = None \<longrightarrow>
      map_sum id IPNet_String (parseIPOrCIDR s6) = Inr (string6 ip6 @ ''/128'')) \<and>
   map_sum id IPNet_String (parseIPOrCIDR ''203.0.113.5'') = Inr ''203.0.113.5/32'' \<and>
   map_sum id IPNet_String (parseIPOrCIDR ''2001:db8::1'') = Inr ''2001:db8::1/128''"
  using same_network_canonical [OF parseIPOrCIDR_shape parseIPOrCIDR_shape, of s1 n1 s2 n2]
    bare_v4_string [of s4 ip4 p4] bare_v6_string [of s6 ip6] string_bare_v4 string_bare_v6
  by blast

theorem canonical_string_unique_witness:
  "parseIPOrCIDR ''203.0.113.5'' =
     Inr \<lparr>IP = [0, 0, 0, 0, 0, 0, 0, 0, 0, 0, 255, 255, 203, 0, 113, 5], Mask = [255, 255, 255, 255]\<rparr> \<and>
   parseIPOrCIDR ''::ffff:203.0.113.5/128'' =
     Inr \<lparr>IP = [0, 0, 0, 0, 0, 0, 0, 0, 0, 0, 255, 255, 203, 0, 113, 5],
          Mask = [255, 255, 255, 255, 255, 255, 255, 255, 255, 255, 255, 255, 255, 255, 255, 255]\<rparr> \<and>
   same_network
     \<lparr>IP = [0, 0, 0, 0, 0, 0, 0, 0, 0, 0, 255, 255, 203, 0, 113, 5], Mask = [255, 255, 255, 255]\<rparr>
     \<lparr>IP = [0, 0, 0, 0, 0, 0, 0, 0, 0, 0, 255, 255, 203, 0, 113, 5],
      Mask = [255, 255, 255, 255, 255, 255, 255, 255, 255, 255, 255, 255, 255, 255, 255, 255]\<rparr> \<and>
   IPNet_String \<lparr>IP = [0, 0, 0, 0, 0, 0, 0, 0, 0, 0, 255, 255, 203, 0, 113, 5], Mask = [255, 255, 255, 255]\<rparr>
     = IPNet_String \<lparr>IP = [0, 0, 0, 0, 0, 0, 0, 0, 0, 0, 255, 255, 203, 0, 113, 5],
          Mask = [255, 255, 255, 255, 255, 255, 255, 255, 255, 255, 255, 255, 255, 255, 255, 255]\<rparr> \<and>
   map_sum id IPNet_String (parseIPOrCIDR ''203.0.113.5'') = Inr ''203.0.113.5/32'' \<and>
   map_sum id IPNet_String (parseIPOrCIDR ''2001:DB8:0:0:0:0:0:1'') = Inr ''2001:db8::1/128''"
proof -
  let ?a = "\<lparr>IP = [0, 0, 0, 0, 0, 0, 0, 0, 0, 0, 255, 255, 203, 0, 113, 5], Mask = [255, 255, 255, 255 :: byte]\<rparr>"
  let ?b = "\<lparr>IP = [0, 0, 0, 0, 0, 0, 0, 0, 0, 0, 255, 255, 203, 0, 113, 5],
             Mask = [255, 255, 255, 255, 255, 255, 255, 255, 255, 255, 255, 255, 255, 255, 255, 255 :: byte]\<rparr>"
  have m: "mask16 (Mask ?a) = mask16 (Mask ?b)" by code_simp
  have t: "to16 (IP ?a) = to16 (IP ?b)" by code_simp
  have same: "same_network ?a ?b"
    unfolding same_network_def covers_def m t by simp
  from canonical_string_unique
         [of "''203.0.113.5''" ?a "''::ffff:203.0.113.5/128''" ?b
             "''203.0.113.5''" "[0, 0, 0, 0, 0, 0, 0, 0, 0, 0, 255, 255, 203, 0, 113, 5]" "[203, 0, 113, 5]"
             "''2001:DB8:0:0:0:0:0:1''" "[32, 1, 13, 184, 0, 0, 0, 0, 0, 0, 0, 0, 0, 0, 0, 1]"]
  show ?thesis
    by (simp only: parse_bare_v4 parse_mapped_cidr same bare_v4_facts bare_v6_facts simp_thms append.simps)
qed

text \<open>
  C8: the canonical strings of the output of \<open>Normalize\<close> are pairwise distinct and sorted
  ascending, that is strictly increasing; the empty input gives the empty output.
\<close>

theorem normalize_dedup_sorted:
  "distinct (ToStrings (Normalize x)) \<and> sorted (ToStrings (Normalize x)) \<and>
   sorted_wrt (<) (ToStrings (Normalize x)) \<and> Normalize [] = []"
  by (simp add: ToStrings_Normalize strict_sorted_iff Normalize_Nil)

text \<open>
  C9: the fingerprint of the normalized set does not depend on the order of the input: a
  permutation of the input gives the same fingerprint.
\<close>

theorem fingerprint_order_invariant:
  "mset x' = mset x \<Longrightarrow> calculateHash (Normalize x') = calculateHash (Normalize x)"
proof -
  assume "mset x' = mset x"
  then have "set x' = set x" by (rule mset_eq_setD)
  then have "ToStrings (Normalize x') = ToStrings (Normalize x)" by (simp add: ToStrings_Normalize)
  then show ?thesis by (simp add: calculateHash_def)
qed

theorem fingerprint_order_invariant_witness:
  "mset [\<lparr>IP = [192, 168, 1, 1], Mask = [255, 255, 255, 255]\<rparr>, \<lparr>IP = [10, 0, 0, 0], Mask = [255, 0, 0, 0]\<rparr>,
         \<lparr>IP = [192, 168, 1, 1], Mask = [255, 255, 255, 255]\<rparr>]
     = mset [\<lparr>IP = [10, 0, 0, 0], Mask = [255, 0, 0, 0]\<rparr>, \<lparr>IP = [192, 168, 1, 1], Mask = [255, 255, 255, 255]\<rparr>,
             \<lparr>IP = [192, 168, 1, 1], Mask = [255, 255, 255, 255]\<rparr>] \<and>
   calculateHash (Normalize [\<lparr>IP = [192, 168, 1, 1], Mask = [255, 255, 255, 255]\<rparr>, \<lparr>IP = [10, 0, 0, 0], Mask = [255, 0, 0, 0]\<rparr>,
         \<lparr>IP = [192, 168, 1, 1], Mask = [255, 255, 255, 255]\<rparr>])
     = calculateHash (Normalize [\<lparr>IP = [10, 0, 0, 0], Mask = [255, 0, 0, 0]\<rparr>, \<lparr>IP = [192, 168, 1, 1], Mask = [255, 255, 255, 255]\<rparr>,
             \<lparr>IP = [192, 168, 1, 1], Mask = [255, 255, 255, 255]\<rparr>])"
proof -
  have m: "mset [\<lparr>IP = [192, 168, 1, 1], Mask = [255, 255, 255, 255]\<rparr>, \<lparr>IP = [10, 0, 0, 0], Mask = [255, 0, 0, 0]\<rparr>,
         \<lparr>IP = [192, 168, 1, 1], Mask = [255, 255, 255, 255]\<rparr>]
     = mset [\<lparr>IP = [10, 0, 0, 0], Mask = [255, 0, 0, 0]\<rparr>, \<lparr>IP = [192, 168, 1, 1], Mask = [255, 255, 255, 255]\<rparr>,
             \<lparr>IP = [192, 168, 1, 1], Mask = [255, 255, 255, 255]\<rparr>]"
    by simp
  from fingerprint_order_invariant [OF m] m show ?thesis by (rule_tac conjI)
qed

text \<open>
  C10: the plain-text parser on the body of the specification's example gives the two
  entries \<open>10.0.0.0/8\<close> and \<open>192.168.1.1/32\<close>, in this order; in a second body a comment
  starting with \<open>//\<close> and a line that is no address are skipped as well.
\<close>

theorem plain_parser_example:
  "map_sum id ToStrings
     (PlainParser_parseBody
        \<lparr>content = ''# comment'' @ [CHR 0x0A] @ [CHR 0x0A] @ ''10.0.0.0/8'' @ [CHR 0x0A] @
                   '';ignored'' @ [CHR 0x0A] @ ''192.168.1.1'' @ [CHR 0x0A],
         read_error = False\<rparr>)
     = Inr [''10.0.0.0/8'', ''192.168.1.1/32''] \<and>
   map_sum id ToStrings
     (PlainParser_parseBody
        \<lparr>content = ''// note'' @ [CHR 0x0A] @ ''not-an-address'' @ [CHR 0x0A] @
                   ''  2001:DB8::1  '' @ [CHR 0x0D, CHR 0x0A] @ ''10.1.2.3/8'',
         read_error = False\<rparr>)
     = Inr [''2001:db8::1/128'', ''10.0.0.0/8'']"
  by code_simp

end
